theory Spec2Isabelle
  imports Main "HOL-Library.List_Lexorder" "HOL-Library.AList"
begin

section \<open>Strings\<close>

text \<open>
  A JavaScript string is a sequence of UTF-16 code units; a code unit is modelled as a
  natural number. \<open>asc\<close> embeds an ASCII literal. The default \<open>Array.prototype.sort\<close>
  compares strings code unit by code unit, which is the lexicographic order on lists.
\<close>

type_synonym jstring = "nat list"

definition asc :: "string \<Rightarrow> jstring" where
  "asc s = map of_char s"

text \<open>\<open>String.prototype.includes\<close>, and the test of an unanchored literal pattern.\<close>

definition isInfix :: "jstring \<Rightarrow> jstring \<Rightarrow> bool" where
  "isInfix p s = (\<exists>i \<in> set [0..<Suc (length s)]. take (length p) (drop i s) = p)"

text \<open>The white space and line terminators that \<open>String.prototype.trim\<close> removes.\<close>

definition isWhiteSpace :: "nat \<Rightarrow> bool" where
  "isWhiteSpace c = (c \<in> set [9, 10, 11, 12, 13, 32, 160, 5760, 8232, 8233, 8239, 8287, 12288, 65279]
     \<or> (8192 \<le> c \<and> c \<le> 8202))"

definition trim :: "jstring \<Rightarrow> jstring" where
  "trim s = rev (dropWhile isWhiteSpace (rev (dropWhile isWhiteSpace s)))"

text \<open>\<open>Array.prototype.join\<close> on strings.\<close>

fun joinWith :: "jstring \<Rightarrow> jstring list \<Rightarrow> jstring" where
  "joinWith sep [] = []"
| "joinWith sep [x] = x"
| "joinWith sep (x # y # ys) = x @ sep @ joinWith sep (y # ys)"

text \<open>\<open>String.prototype.split\<close> with a one-character separator: never the empty list.\<close>

fun splitOn :: "nat \<Rightarrow> jstring \<Rightarrow> jstring list" where
  "splitOn c [] = [[]]"
| "splitOn c (x # xs) =
     (if x = c then [] # splitOn c xs
      else (case splitOn c xs of [] \<Rightarrow> [[x]] | w # ws \<Rightarrow> (x # w) # ws))"

text \<open>Decimal rendering of an integer, as \<open>String(n)\<close> gives for a safe integer.\<close>

fun showNat :: "nat \<Rightarrow> jstring" where
  "showNat n = (if n < 10 then [48 + n] else showNat (n div 10) @ [48 + n mod 10])"

declare showNat.simps [simp del]

definition showInt :: "int \<Rightarrow> jstring" where
  "showInt i = (if i < 0 then 45 # showNat (nat (- i)) else showNat (nat i))"

text \<open>\<open>padStart(2, '0')\<close>.\<close>

definition padStart2 :: "jstring \<Rightarrow> jstring" where
  "padStart2 s = replicate (2 - length s) 48 @ s"

definition isDigit :: "nat \<Rightarrow> bool" where
  "isDigit c = (48 \<le> c \<and> c \<le> 57)"

text \<open>\<open>parseInt(s, 10)\<close> on a string of decimal digits.\<close>

definition parseInt :: "jstring \<Rightarrow> int" where
  "parseInt s = foldl (\<lambda>a c. 10 * a + (int c - 48)) 0 s"

text \<open>
  A pattern literal with the \<open>i\<close> flag and no \<open>u\<close> flag folds case through the
  canonicalisation of the language standard, which never identifies a code unit of 128
  or more with an ASCII one: on ASCII patterns it is the ASCII case folding.
\<close>

definition asciiLower :: "jstring \<Rightarrow> jstring" where
  "asciiLower s = map (\<lambda>c. if 65 \<le> c \<and> c \<le> 90 then c + 32 else c) s"

section \<open>The host\<close>

text \<open>
  What the JavaScript engine supplies and the repository does not define. The local time
  zone is a fixed offset from UTC in milliseconds (no daylight-saving transitions);
  \<open>dateParse\<close> is the free-form \<open>Date.parse\<close> (\<open>None\<close> is \<open>NaN\<close>); \<open>dateToString\<close> is
  \<open>Date.prototype.toString\<close>; \<open>toLowerCase\<close> and \<open>normalizeNFD\<close> are the Unicode tables;
  \<open>localeCompare\<close> is the collation of the host's locale; \<open>numberToString\<close> is
  \<open>String(n)\<close>, consulted for the numbers beyond the safe integers, which are not written
  digit by digit (exponent notation from \<open>1e21\<close> on).
\<close>

record host =
  LocalTZA :: int
  dateParse :: "jstring \<Rightarrow> int option"
  dateToString :: "int option \<Rightarrow> jstring"
  numberToString :: "int \<Rightarrow> jstring"
  toLowerCase :: "jstring \<Rightarrow> jstring"
  normalizeNFD :: "jstring \<Rightarrow> jstring"
  localeCompare :: "jstring \<Rightarrow> jstring \<Rightarrow> int"

section \<open>Dates\<close>

text \<open>
  A \<open>Date\<close> holds a time value, milliseconds since the Unix epoch, or \<open>NaN\<close>
  (\<open>None\<close>). The calendar functions follow the language standard: \<open>Day\<close>,
  \<open>DayFromYear\<close>, the year, month and date of a day number, \<open>MakeDay\<close> and
  \<open>TimeClip\<close>. The year of a day is computed from an estimate that is off by at most
  one; \<open>YearFromDay_bounds\<close> below shows it is the year the standard specifies.
\<close>

definition msPerDay :: int where
  "msPerDay = 86400000"

definition Day :: "int \<Rightarrow> int" where
  "Day t = t div msPerDay"

definition DayFromYear :: "int \<Rightarrow> int" where
  "DayFromYear y = 365 * (y - 1970) + (y - 1969) div 4 - (y - 1901) div 100 + (y - 1601) div 400"

definition InLeapYear :: "int \<Rightarrow> bool" where
  "InLeapYear y = (y mod 4 = 0 \<and> (y mod 100 \<noteq> 0 \<or> y mod 400 = 0))"

definition YearFromDay :: "int \<Rightarrow> int" where
  "YearFromDay d =
     (let y = 1970 + (400 * d) div 146097 in
      if d < DayFromYear y then y - 1
      else if DayFromYear (y + 1) \<le> d then y + 1
      else y)"

definition DayWithinYear :: "int \<Rightarrow> int" where
  "DayWithinYear d = d - DayFromYear (YearFromDay d)"

text \<open>The number of days of the year before month \<open>m\<close> (0 is January).\<close>

definition monthStart :: "int \<Rightarrow> bool \<Rightarrow> int" where
  "monthStart m leap =
     (let l = (if leap then 1 else 0) in
      if m = 0 then 0 else if m = 1 then 31 else if m = 2 then 59 + l
      else if m = 3 then 90 + l else if m = 4 then 120 + l else if m = 5 then 151 + l
      else if m = 6 then 181 + l else if m = 7 then 212 + l else if m = 8 then 243 + l
      else if m = 9 then 273 + l else if m = 10 then 304 + l else 334 + l)"

text \<open>The month of day \<open>w\<close> within a year, by the table of the language standard.\<close>

definition monthOf :: "int \<Rightarrow> bool \<Rightarrow> int" where
  "monthOf w leap =
     (if w < monthStart 1 leap then 0 else if w < monthStart 2 leap then 1
      else if w < monthStart 3 leap then 2 else if w < monthStart 4 leap then 3
      else if w < monthStart 5 leap then 4 else if w < monthStart 6 leap then 5
      else if w < monthStart 7 leap then 6 else if w < monthStart 8 leap then 7
      else if w < monthStart 9 leap then 8 else if w < monthStart 10 leap then 9
      else if w < monthStart 11 leap then 10 else 11)"

definition MonthFromDay :: "int \<Rightarrow> int" where
  "MonthFromDay d = monthOf (DayWithinYear d) (InLeapYear (YearFromDay d))"

definition DateFromDay :: "int \<Rightarrow> int" where
  "DateFromDay d =
     DayWithinYear d - monthStart (MonthFromDay d) (InLeapYear (YearFromDay d)) + 1"

definition MakeDay :: "int \<Rightarrow> int \<Rightarrow> int \<Rightarrow> int" where
  "MakeDay year month date =
     (let ym = year + month div 12; mn = month mod 12 in
      DayFromYear ym + monthStart mn (InLeapYear ym) + date - 1)"

definition TimeClip :: "int \<Rightarrow> int option" where
  "TimeClip t = (if \<bar>t\<bar> > 8640000000000000 then None else Some t)"

text \<open>\<open>new Date(ms)\<close> on a whole number of milliseconds.\<close>

definition newDateMs :: "int \<Rightarrow> int option" where
  "newDateMs ms = TimeClip ms"

text \<open>\<open>new Date(year, month, day)\<close>: midnight of that local calendar day.\<close>

definition newDateYMD :: "host \<Rightarrow> int \<Rightarrow> int \<Rightarrow> int \<Rightarrow> int option" where
  "newDateYMD h year month day =
     (let yr = (if 0 \<le> year \<and> year \<le> 99 then 1900 + year else year) in
      TimeClip (MakeDay yr month day * msPerDay - LocalTZA h))"

definition getFullYear :: "host \<Rightarrow> int \<Rightarrow> int" where
  "getFullYear h t = YearFromDay (Day (t + LocalTZA h))"

definition getMonth :: "host \<Rightarrow> int \<Rightarrow> int" where
  "getMonth h t = MonthFromDay (Day (t + LocalTZA h))"

definition getDate :: "host \<Rightarrow> int \<Rightarrow> int" where
  "getDate h t = DateFromDay (Day (t + LocalTZA h))"

text \<open>\<open>formatDate\<close> of \<open>services/fileParser.ts\<close>.\<close>

definition formatDate :: "host \<Rightarrow> int option \<Rightarrow> jstring" where
  "formatDate h date =
     (case date of
        None \<Rightarrow> []
      | Some t \<Rightarrow>
          (let day = padStart2 (showInt (getDate h t));
               month = padStart2 (showInt (getMonth h t + 1));
               year = getFullYear h t
           in day @ [45] @ month @ [45] @ showInt year))"

section \<open>Rows\<close>

text \<open>
  A cell is a scalar: a string, a number, a \<open>Date\<close>, a boolean or \<open>null\<close>. Numbers are
  whole numbers in the safe-integer range, on which the arithmetic of doubles is exact;
  fractional numbers, \<open>NaN\<close> and the infinities are not modelled. A row is an object:
  its own properties in the order \<open>Object.keys\<close> enumerates them, with distinct keys.
  Reading a missing property gives \<open>undefined\<close>, which is \<open>None\<close>.
\<close>

datatype cell = Str jstring | Num int | DateV "int option" | Bool bool | Null

type_synonym row = "(jstring \<times> cell) list"

text \<open>\<open>String(v)\<close>.\<close>

definition toStr :: "host \<Rightarrow> cell option \<Rightarrow> jstring" where
  "toStr h ov =
     (case ov of
        None \<Rightarrow> asc ''undefined''
      | Some (Str s) \<Rightarrow> s
      | Some (Num n) \<Rightarrow>
          (if \<bar>n\<bar> \<le> 9007199254740992 then showInt n else numberToString h n)
      | Some (DateV d) \<Rightarrow> dateToString h d
      | Some (Bool b) \<Rightarrow> (if b then asc ''true'' else asc ''false'')
      | Some Null \<Rightarrow> asc ''null'')"

text \<open>\<open>String(v ?? '')\<close>, which is also how \<open>Array.prototype.join\<close> renders an element.\<close>

definition toStrOrEmpty :: "host \<Rightarrow> cell option \<Rightarrow> jstring" where
  "toStrOrEmpty h ov = (if ov = None \<or> ov = Some Null then [] else toStr h ov)"

section \<open>services/fileParser.ts\<close>

definition isSep :: "nat \<Rightarrow> bool" where
  "isSep c = (c = 47 \<or> c = 45)"

text \<open>
  The match of \<^verbatim>\<open>/^(\d{1,2})[/-](\d{1,2})[/-](\d{2,4})$/\<close>: the three groups. A separator
  is not a digit, so each group is a maximal run of digits.
\<close>

definition matchDMY :: "jstring \<Rightarrow> (jstring \<times> jstring \<times> jstring) option" where
  "matchDMY s =
     (let d = takeWhile isDigit s; r1 = dropWhile isDigit s in
      if length d < 1 \<or> 2 < length d then None
      else (case r1 of
              [] \<Rightarrow> None
            | c1 # t1 \<Rightarrow>
                if \<not> isSep c1 then None
                else (let m = takeWhile isDigit t1; r2 = dropWhile isDigit t1 in
                      if length m < 1 \<or> 2 < length m then None
                      else (case r2 of
                              [] \<Rightarrow> None
                            | c2 # y \<Rightarrow>
                                if \<not> isSep c2 then None
                                else if list_all isDigit y \<and> 2 \<le> length y \<and> length y \<le> 4
                                then Some (d, m, y) else None))))"

definition antiguedad :: jstring where
  "antiguedad = asc ''antig'' @ [252] @ asc ''edad''"

definition isDateHeader :: "host \<Rightarrow> jstring \<Rightarrow> bool" where
  "isDateHeader h k =
     (isInfix (asc ''fecha'') (toLowerCase h k) \<or> isInfix antiguedad (toLowerCase h k))"

text \<open>
  The chain of tests of \<open>processDataForDates\<close> that sets \<open>date\<close>: the outer \<open>None\<close> is
  \<open>null\<close>, \<open>Some None\<close> is an invalid \<open>Date\<close>.
\<close>

definition parseCellDate :: "host \<Rightarrow> cell option \<Rightarrow> int option option" where
  "parseCellDate h originalValue =
     (case originalValue of
        Some (DateV d) \<Rightarrow> Some d
      | Some (Num n) \<Rightarrow>
          if n > 25569 then Some (newDateMs ((n - 25569) * 86400 * 1000)) else None
      | Some (Str s) \<Rightarrow>
          (case matchDMY s of
             Some (ds, ms, ys) \<Rightarrow>
               (let day = parseInt ds;
                    month = parseInt ms - 1;
                    year = parseInt ys;
                    year2 = (if year < 100 then year + 2000 else year)
                in Some (newDateYMD h year2 month day))
           | None \<Rightarrow>
               (let parsedDate = dateParse h s in
                if parsedDate \<noteq> None then Some parsedDate else None))
      | _ \<Rightarrow> None)"

text \<open>The value assigned to the cell, or \<open>None\<close> when the cell is left as it is.\<close>

definition normalizeValue :: "host \<Rightarrow> cell option \<Rightarrow> cell option" where
  "normalizeValue h originalValue =
     (case parseCellDate h originalValue of
        Some (Some t) \<Rightarrow>
          if getFullYear h t > 1000 then Some (Str (formatDate h (Some t))) else None
      | _ \<Rightarrow> None)"

definition processRow :: "host \<Rightarrow> jstring list \<Rightarrow> row \<Rightarrow> row" where
  "processRow h dateHeaders r =
     fold (\<lambda>header newRow.
             case normalizeValue h (map_of newRow header) of
               Some v \<Rightarrow> AList.update header v newRow
             | None \<Rightarrow> newRow) dateHeaders r"

definition processDataForDates :: "host \<Rightarrow> row list \<Rightarrow> jstring list \<Rightarrow> row list" where
  "processDataForDates h dat hdrs =
     (let dateHeaders = filter (isDateHeader h) hdrs in
      if dateHeaders = [] then dat else map (processRow h dateHeaders) dat)"

record parseResult =
  headers :: "jstring list"
  data :: "row list"

text \<open>\<open>Set.prototype.add\<close> and \<open>Array.from(new Set(xs))\<close>: insertion order, no repeats.\<close>

definition setAdd :: "'a \<Rightarrow> 'a list \<Rightarrow> 'a list" where
  "setAdd x s = (if x \<in> set s then s else s @ [x])"

definition fromSet :: "'a list \<Rightarrow> 'a list" where
  "fromSet xs = fold setAdd xs []"

definition processAndResolve :: "host \<Rightarrow> row list \<Rightarrow> parseResult" where
  "processAndResolve h dat =
     (if dat = [] then \<lparr>headers = [], data = []\<rparr>
      else (let allHeaders = fromSet (concat (map (map fst) dat));
                processedData = processDataForDates h dat allHeaders
            in \<lparr>headers = allHeaders, data = processedData\<rparr>))"

text \<open>
  The libraries and the file reader, by what they deliver: the CSV parser calls its error
  callback or completes with error messages and data; a reader fails or loads a result
  that may be missing; \<open>JSON.parse\<close> and the spreadsheet reader throw or return. A parsed
  JSON array is taken to hold row objects, as its type \<open>TableRow[]\<close> says. A thrown value
  is an \<open>Error\<close> with its message, or something else.
\<close>

datatype thrown = ErrorObj jstring | NotAnError

datatype papaResult = PapaFailed jstring | PapaComplete "jstring list" "row list option"

datatype 'a readResult = ReadFailed | ReadLoaded "'a option"

datatype jsonRoot = JsonArray "row list" | JsonOther

record inputFile =
  fname :: jstring
  content :: "nat list"

record libs =
  papaParse :: "inputFile \<Rightarrow> papaResult"
  readAsText :: "inputFile \<Rightarrow> jstring readResult"
  readAsArrayBuffer :: "inputFile \<Rightarrow> (nat list) readResult"
  jsonParse :: "jstring \<Rightarrow> thrown + jsonRoot"
  xlsxRead :: "nat list \<Rightarrow> thrown + (jstring \<times> (thrown + row list)) list"

text \<open>The CSV rows kept: those with a field that is neither \<open>null\<close> nor empty.\<close>

definition csvKeep :: "row \<Rightarrow> bool" where
  "csvKeep r = (\<not> list_all (\<lambda>v. v = Null \<or> v = Str []) (map snd r))"

text \<open>
  \<open>parseFile\<close>: the promise settles once; \<open>Inl\<close> is a rejection with the message of its
  \<open>Error\<close>, \<open>Inr\<close> a resolution.
\<close>

definition parseFile :: "host \<Rightarrow> libs \<Rightarrow> inputFile \<Rightarrow> jstring + parseResult" where
  "parseFile h L f =
     (let extension = toLowerCase h (last (splitOn 46 (fname f))) in
      if extension = asc ''csv'' then
        (case papaParse L f of
           PapaFailed msg \<Rightarrow> Inl (asc ''Error al parsear CSV: '' @ msg)
         | PapaComplete errors dat \<Rightarrow>
             if errors \<noteq> [] then Inl (joinWith [10] errors)
             else (case dat of
                     None \<Rightarrow> Inr \<lparr>headers = [], data = []\<rparr>
                   | Some rs \<Rightarrow> Inr (processAndResolve h (filter csvKeep rs))))
      else if extension = asc ''json'' then
        (case readAsText L f of
           ReadFailed \<Rightarrow> Inl (asc ''Error al leer el archivo.'')
         | ReadLoaded None \<Rightarrow> Inl (asc ''No se pudo leer el archivo JSON.'')
         | ReadLoaded (Some txt) \<Rightarrow>
             if txt = [] then Inl (asc ''No se pudo leer el archivo JSON.'')
             else (case jsonParse L txt of
                     Inl (ErrorObj msg) \<Rightarrow> Inl (asc ''JSON inv'' @ [225] @ asc ''lido: '' @ msg)
                   | Inl NotAnError \<Rightarrow> Inl (asc ''Error al parsear el archivo JSON.'')
                   | Inr JsonOther \<Rightarrow>
                       Inl (asc ''El archivo JSON debe contener un array de objetos.'')
                   | Inr (JsonArray rs) \<Rightarrow> Inr (processAndResolve h rs)))
      else if extension = asc ''xlsx'' \<or> extension = asc ''xls'' then
        (case readAsArrayBuffer L f of
           ReadFailed \<Rightarrow> Inl (asc ''Error al leer el archivo.'')
         | ReadLoaded None \<Rightarrow> Inl (asc ''No se pudo leer el archivo de Excel.'')
         | ReadLoaded (Some buf) \<Rightarrow>
             (case xlsxRead L buf of
                Inl (ErrorObj msg) \<Rightarrow>
                  Inl (asc ''Error al procesar el archivo de Excel: '' @ msg)
              | Inl NotAnError \<Rightarrow>
                  Inl (asc ''Ocurri'' @ [243]
                       @ asc '' un error desconocido al procesar el archivo de Excel.'')
              | Inr [] \<Rightarrow> Inl (asc ''El archivo de Excel no contiene hojas.'')
              | Inr ((sheetName, sheet) # _) \<Rightarrow>
                  if sheetName = [] then Inl (asc ''El archivo de Excel no contiene hojas.'')
                  else (case sheet of
                          Inl (ErrorObj msg) \<Rightarrow>
                            Inl (asc ''Error al procesar el archivo de Excel: '' @ msg)
                        | Inl NotAnError \<Rightarrow>
                            Inl (asc ''Ocurri'' @ [243]
                                 @ asc '' un error desconocido al procesar el archivo de Excel.'')
                        | Inr rs \<Rightarrow> Inr (processAndResolve h rs))))
      else Inl (asc ''Tipo de archivo no soportado: .'' @ extension))"

section \<open>components/Report.tsx\<close>

definition isSurnameKey :: "jstring \<Rightarrow> bool" where
  "isSurnameKey k = isInfix (asc ''apellidos'') (asciiLower k)"

definition isNameKey :: "jstring \<Rightarrow> bool" where
  "isNameKey k = isInfix (asc ''nombre'') (asciiLower k)"

definition isAnyNameKey :: "jstring \<Rightarrow> bool" where
  "isAnyNameKey k =
     (isInfix (asc ''nombre'') (asciiLower k) \<or> isInfix (asc ''apellidos'') (asciiLower k)
      \<or> isInfix (asc ''name'') (asciiLower k) \<or> isInfix (asc ''candidato'') (asciiLower k))"

definition isIdKey :: "jstring \<Rightarrow> bool" where
  "isIdKey k =
     (isInfix (asc ''dni'') (asciiLower k) \<or> isInfix (asc ''nif'') (asciiLower k)
      \<or> isInfix (asc ''id'') (asciiLower k))"

definition unknownCandidate :: jstring where
  "unknownCandidate = asc ''Candidato Desconocido''"

text \<open>\<open>String(Object.values(row)[0] ?? 'Candidato Desconocido')\<close>.\<close>

definition firstValueOrUnknown :: "host \<Rightarrow> row \<Rightarrow> jstring" where
  "firstValueOrUnknown h r =
     (case r of
        [] \<Rightarrow> unknownCandidate
      | (k, v) # _ \<Rightarrow> (if v = Null then unknownCandidate else toStr h (Some v)))"

definition getCandidateIdentifier :: "host \<Rightarrow> row \<Rightarrow> jstring" where
  "getCandidateIdentifier h r =
     (let keys = map fst r;
          surnameKeys = sort (filter isSurnameKey keys);
          nameKeys = sort (filter (\<lambda>k. isNameKey k \<and> \<not> isSurnameKey k) keys);
          fullNameParts = map (\<lambda>k. toStrOrEmpty h (map_of r k)) surnameKeys
                          @ map (\<lambda>k. toStrOrEmpty h (map_of r k)) nameKeys
      in if fullNameParts \<noteq> [] then trim (joinWith [32] fullNameParts)
         else (let allNameKeys = sort (filter isAnyNameKey keys) in
               if allNameKeys \<noteq> []
               then trim (joinWith [32] (map (\<lambda>k. toStrOrEmpty h (map_of r k)) allNameKeys))
               else (case find isIdKey keys of
                       Some dniKey \<Rightarrow>
                         if dniKey \<noteq> [] then toStr h (map_of r dniKey)
                         else firstValueOrUnknown h r
                     | None \<Rightarrow> firstValueOrUnknown h r)))"

text \<open>
  The selection state is an object of objects. \<open>checkedState[rowIndex]?.[union]\<close> reads
  the own property of the row's entry when there is one, and otherwise the member of that
  name inherited from \<open>Object.prototype\<close>, which is a function or an object and so
  truthy.
\<close>

type_synonym checkedState = "nat \<Rightarrow> (jstring \<Rightarrow> bool option) option"

definition objectPrototypeNames :: "jstring list" where
  "objectPrototypeNames =
     [asc ''constructor'', asc ''hasOwnProperty'', asc ''isPrototypeOf'',
      asc ''propertyIsEnumerable'', asc ''toLocaleString'', asc ''toString'', asc ''valueOf'',
      asc ''__proto__'', asc ''__defineGetter__'', asc ''__defineSetter__'',
      asc ''__lookupGetter__'', asc ''__lookupSetter__'']"

definition isChecked :: "checkedState \<Rightarrow> nat \<Rightarrow> jstring \<Rightarrow> bool" where
  "isChecked cs rowIndex u =
     (case cs rowIndex of
        None \<Rightarrow> False
      | Some m \<Rightarrow> (case m u of None \<Rightarrow> u \<in> set objectPrototypeNames | Some b \<Rightarrow> b))"

record candidate =
  unions :: "jstring list"
  crow :: row

record duplicate =
  didentifier :: jstring
  dunions :: "jstring list"
  drow :: row

record groupedCandidate =
  gidentifier :: jstring
  otherUnions :: "jstring list"
  grow :: row

text \<open>
  The \<open>Map\<close> from identifier to candidate is an association list in insertion order; a
  \<open>Set\<close> of unions is a list without repeats in insertion order.
\<close>

definition addUnion :: "jstring \<Rightarrow> jstring \<Rightarrow> (jstring \<times> candidate) list \<Rightarrow> (jstring \<times> candidate) list" where
  "addUnion ident u m =
     map (\<lambda>(k, c). if k = ident then (k, c\<lparr>unions := setAdd u (unions c)\<rparr>) else (k, c)) m"

definition addRowToMap ::
  "host \<Rightarrow> checkedState \<Rightarrow> jstring list \<Rightarrow> row \<times> nat \<Rightarrow> (jstring \<times> candidate) list
     \<Rightarrow> (jstring \<times> candidate) list" where
  "addRowToMap h cs allUnions ri candidatesMap =
     (let checkedUnionsForRow = filter (isChecked cs (snd ri)) allUnions in
      if checkedUnionsForRow \<noteq> [] then
        (let ident = getCandidateIdentifier h (fst ri);
             m1 = (if ident \<in> fst ` set candidatesMap then candidatesMap
                   else candidatesMap @ [(ident, \<lparr>unions = [], crow = fst ri\<rparr>)])
         in fold (addUnion ident) checkedUnionsForRow m1)
      else candidatesMap)"

definition buildCandidatesMap ::
  "host \<Rightarrow> row list \<Rightarrow> checkedState \<Rightarrow> jstring list \<Rightarrow> (jstring \<times> candidate) list" where
  "buildCandidatesMap h dat cs allUnions =
     fold (addRowToMap h cs allUnions) (zip dat [0..<length dat]) []"

definition actualDuplicates ::
  "host \<Rightarrow> row list \<Rightarrow> checkedState \<Rightarrow> jstring list \<Rightarrow> duplicate list" where
  "actualDuplicates h dat cs allUnions =
     map (\<lambda>c. \<lparr>didentifier = getCandidateIdentifier h (crow c),
                dunions = sort (unions c), drow = crow c\<rparr>)
       (filter (\<lambda>c. length (unions c) > 1) (map snd (buildCandidatesMap h dat cs allUnions)))"

text \<open>
  \<open>Array.prototype.sort\<close> with a comparison function is stable: an insertion sort that
  puts an element before the first one it does not compare greater than.
\<close>

fun insertBy :: "('a \<Rightarrow> 'a \<Rightarrow> bool) \<Rightarrow> 'a \<Rightarrow> 'a list \<Rightarrow> 'a list" where
  "insertBy le x [] = [x]"
| "insertBy le x (y # ys) = (if le x y then x # y # ys else y # insertBy le x ys)"

definition sortBy :: "('a \<Rightarrow> 'a \<Rightarrow> bool) \<Rightarrow> 'a list \<Rightarrow> 'a list" where
  "sortBy le xs = foldr (insertBy le) xs []"

definition candidatesInUnion :: "jstring \<Rightarrow> duplicate list \<Rightarrow> groupedCandidate list" where
  "candidatesInUnion u dups =
     map (\<lambda>dup. \<lparr>gidentifier = didentifier dup,
                  otherUnions = filter (\<lambda>x. x \<noteq> u) (dunions dup),
                  grow = drow dup\<rparr>)
       (filter (\<lambda>dup. u \<in> set (dunions dup)) dups)"

text \<open>
  \<open>duplicatedCandidatesByUnion\<close>: the result object by its own properties, as
  \<open>Object.entries\<close> lists them to the report, a property assigned again keeping its
  place (the order of names that are whole numbers is not modelled). Assigning to the
  name \<open>__proto__\<close> calls the setter inherited from \<open>Object.prototype\<close>, which replaces
  the prototype of the object and creates no property.
\<close>

definition assignProperty ::
  "jstring \<Rightarrow> 'v \<Rightarrow> (jstring \<times> 'v) list \<Rightarrow> (jstring \<times> 'v) list" where
  "assignProperty k v obj = (if k = asc ''__proto__'' then obj else AList.update k v obj)"

definition duplicatedCandidatesByUnion ::
  "host \<Rightarrow> row list \<Rightarrow> checkedState \<Rightarrow> jstring list \<Rightarrow> (jstring \<times> groupedCandidate list) list" where
  "duplicatedCandidatesByUnion h dat cs allUnions =
     (let dups = actualDuplicates h dat cs allUnions in
      fold (\<lambda>u groupedByUnion.
              (let candidatesInThisUnion = candidatesInUnion u dups in
               if candidatesInThisUnion \<noteq> [] then
                 assignProperty u
                   (sortBy (\<lambda>a b. localeCompare h (gidentifier a) (gidentifier b) \<le> 0)
                      candidatesInThisUnion)
                   groupedByUnion
               else groupedByUnion))
        allUnions [])"

section \<open>The search filter of the application\<close>

definition isCombining :: "nat \<Rightarrow> bool" where
  "isCombining c = (768 \<le> c \<and> c \<le> 879)"

text \<open>The punctuation class \<^verbatim>\<open>[.,/#!$%^&*;:{}=\-_`~()]\<close>.\<close>

definition isPunct :: "nat \<Rightarrow> bool" where
  "isPunct c = (c \<in> set [46, 44, 47, 35, 33, 36, 37, 94, 38, 42, 59, 58, 123, 125, 61, 45, 95,
     96, 126, 40, 41])"

definition normalizeText :: "host \<Rightarrow> jstring \<Rightarrow> jstring" where
  "normalizeText h text =
     (if text = [] then []
      else filter (\<lambda>c. \<not> isPunct c)
             (toLowerCase h (filter (\<lambda>c. \<not> isCombining c) (normalizeNFD h text))))"

definition withIndices :: "row list \<Rightarrow> (row \<times> nat) list" where
  "withIndices dat = zip dat [0..<length dat]"

text \<open>The effect that precomputes \<open>searchableData\<close> from \<open>originalData\<close>.\<close>

definition searchable :: "host \<Rightarrow> (row \<times> nat) list \<Rightarrow> (jstring \<times> nat) list" where
  "searchable h originalData =
     map (\<lambda>(r, originalIndex).
            (normalizeText h (joinWith [32] (map (\<lambda>v. toStrOrEmpty h (Some v)) (map snd r))),
             originalIndex)) originalData"

definition searchTerms :: "host \<Rightarrow> jstring \<Rightarrow> jstring list" where
  "searchTerms h searchTerm =
     filter (\<lambda>term. trim term \<noteq> []) (splitOn 32 (normalizeText h searchTerm))"

text \<open>The effect that computes \<open>filteredData\<close>.\<close>

definition filterData ::
  "host \<Rightarrow> (row \<times> nat) list \<Rightarrow> (jstring \<times> nat) list \<Rightarrow> jstring \<Rightarrow> (row \<times> nat) list" where
  "filterData h originalData searchableData searchTerm =
     (let terms = searchTerms h searchTerm in
      if terms = [] then originalData
      else (let filteredIndexes =
                  map snd (filter (\<lambda>(searchableString, i).
                                     list_all (\<lambda>term. isInfix term searchableString) terms)
                             searchableData)
            in filter (\<lambda>(r, originalIndex). originalIndex \<in> set filteredIndexes) originalData))"

definition search :: "host \<Rightarrow> row list \<Rightarrow> jstring \<Rightarrow> (row \<times> nat) list" where
  "search h dat searchTerm =
     filterData h (withIndices dat) (searchable h (withIndices dat)) searchTerm"

section \<open>A host for the examples\<close>

text \<open>
  UTC as the local zone; lower-casing and canonical decomposition by the Unicode tables of
  the Basic Latin and Latin-1 blocks, exact on strings of code units below 256; collation
  by code units. The examples hold no \<open>Date\<close> cell, no free-form date and no number
  beyond the safe integers, so these fields are not exercised: no string parses, a date
  renders as the empty string, and a number is written digit by digit.
\<close>

definition lowerLatin1 :: "nat \<Rightarrow> nat" where
  "lowerLatin1 c = (if (65 \<le> c \<and> c \<le> 90) \<or> (192 \<le> c \<and> c \<le> 222 \<and> c \<noteq> 215) then c + 32 else c)"

definition nfdLatin1 :: "nat \<Rightarrow> jstring" where
  "nfdLatin1 c =
     (case map_of
       [(192, [65, 768]), (193, [65, 769]), (194, [65, 770]), (195, [65, 771]),
      (196, [65, 776]), (197, [65, 778]), (199, [67, 807]), (200, [69, 768]),
      (201, [69, 769]), (202, [69, 770]), (203, [69, 776]), (204, [73, 768]),
      (205, [73, 769]), (206, [73, 770]), (207, [73, 776]), (209, [78, 771]),
      (210, [79, 768]), (211, [79, 769]), (212, [79, 770]), (213, [79, 771]),
      (214, [79, 776]), (217, [85, 768]), (218, [85, 769]), (219, [85, 770]),
      (220, [85, 776]), (221, [89, 769]), (224, [97, 768]), (225, [97, 769]),
      (226, [97, 770]), (227, [97, 771]), (228, [97, 776]), (229, [97, 778]),
      (231, [99, 807]), (232, [101, 768]), (233, [101, 769]), (234, [101, 770]),
      (235, [101, 776]), (236, [105, 768]), (237, [105, 769]), (238, [105, 770]),
      (239, [105, 776]), (241, [110, 771]), (242, [111, 768]), (243, [111, 769]),
      (244, [111, 770]), (245, [111, 771]), (246, [111, 776]), (249, [117, 768]),
      (250, [117, 769]), (251, [117, 770]), (252, [117, 776]), (253, [121, 769]),
      (255, [121, 776])] c of
        None \<Rightarrow> [c]
      | Some d \<Rightarrow> d)"

definition compareUnits :: "jstring \<Rightarrow> jstring \<Rightarrow> int" where
  "compareUnits a b = (if a < b then - 1 else if a = b then 0 else 1)"

definition exampleHost :: "int \<Rightarrow> host" where
  "exampleHost tza =
     \<lparr>LocalTZA = tza,
      dateParse = (\<lambda>s. None),
      dateToString = (\<lambda>d. []),
      numberToString = showInt,
      toLowerCase = map lowerLatin1,
      normalizeNFD = (\<lambda>s. concat (map nfdLatin1 s)),
      localeCompare = compareUnits\<rparr>"

section \<open>Calendar dates, for the statements\<close>

text \<open>The length of month \<open>m\<close> (1 is January) of year \<open>y\<close>, and the dates that exist.\<close>

definition monthLength :: "bool \<Rightarrow> int \<Rightarrow> int" where
  "monthLength leap m =
     (if m = 2 then (if leap then 29 else 28)
      else if m = 4 \<or> m = 6 \<or> m = 9 \<or> m = 11 then 30 else 31)"

definition daysInMonth :: "int \<Rightarrow> int \<Rightarrow> int" where
  "daysInMonth y m = monthLength (InLeapYear y) m"

definition validDate :: "int \<Rightarrow> int \<Rightarrow> int \<Rightarrow> bool" where
  "validDate y m d = (1 \<le> m \<and> m \<le> 12 \<and> 1 \<le> d \<and> d \<le> daysInMonth y m)"

text \<open>
  The rendering \<open>DD-MM-YYYY\<close> of a day, a month and a year, and of the calendar date of
  a day number (days since 1 January 1970).
\<close>

definition ddmmyyyy :: "int \<Rightarrow> int \<Rightarrow> int \<Rightarrow> jstring" where
  "ddmmyyyy d m y = padStart2 (showInt d) @ [45] @ padStart2 (showInt m) @ [45] @ showInt y"

definition formatDay :: "int \<Rightarrow> jstring" where
  "formatDay dn = ddmmyyyy (DateFromDay dn) (MonthFromDay dn + 1) (YearFromDay dn)"

text \<open>
  The strings that the pattern of \<open>processDataForDates\<close> matches: one or two digits, a
  separator, one or two digits, a separator, two to four digits. A year below 100 is
  taken in the twenty-first century.
\<close>

definition dmyShape :: "jstring \<Rightarrow> nat \<Rightarrow> jstring \<Rightarrow> nat \<Rightarrow> jstring \<Rightarrow> bool" where
  "dmyShape ds c1 ms c2 ys =
     (list_all isDigit ds \<and> 1 \<le> length ds \<and> length ds \<le> 2 \<and> isSep c1
      \<and> list_all isDigit ms \<and> 1 \<le> length ms \<and> length ms \<le> 2 \<and> isSep c2
      \<and> list_all isDigit ys \<and> 2 \<le> length ys \<and> length ys \<le> 4)"

definition expandYear :: "int \<Rightarrow> int" where
  "expandYear y = (if y < 100 then y + 2000 else y)"

text \<open>The place where \<open>x\<close> is first seen in a scan (its length when \<open>x\<close> is not in it).\<close>

definition firstPos :: "'a \<Rightarrow> 'a list \<Rightarrow> nat" where
  "firstPos x xs = length (takeWhile (\<lambda>y. y \<noteq> x) xs)"

text \<open>The keys of all rows, in the order \<open>flatMap\<close> scans them.\<close>

definition keyScan :: "row list \<Rightarrow> jstring list" where
  "keyScan dat = concat (map (map fst) dat)"

text \<open>The extension \<open>parseFile\<close> dispatches on: the last dot-separated part, lower-cased.\<close>

definition extensionOf :: "host \<Rightarrow> inputFile \<Rightarrow> jstring" where
  "extensionOf h f = toLowerCase h (last (splitOn 46 (fname f)))"

text \<open>
  Libraries for the examples. The readers hand over the content of the file. The CSV
  parser completes without data on an empty file and otherwise with one row whose only
  field is empty; the JSON parser knows the two texts \<open>[]\<close> and \<open>{}\<close>; the spreadsheet
  reader finds one sheet, \<open>Hoja1\<close>, with no rows.
\<close>

definition exampleLibs :: libs where
  "exampleLibs =
     \<lparr>papaParse = (\<lambda>f. if content f = [] then PapaComplete [] None
                         else PapaComplete [] (Some [[(asc ''a'', Str [])]])),
      readAsText = (\<lambda>f. ReadLoaded (Some (content f))),
      readAsArrayBuffer = (\<lambda>f. ReadLoaded (Some (content f))),
      jsonParse = (\<lambda>txt. if txt = asc ''[]'' then Inr (JsonArray [])
                          else if txt = asc ''{}'' then Inr JsonOther
                          else Inl (ErrorObj (asc ''Unexpected token''))),
      xlsxRead = (\<lambda>buf. Inr [(asc ''Hoja1'', Inr [])])\<rparr>"

text \<open>
  A host, at UTC, whose free-form \<open>Date.parse\<close> reads \<open>02-01-10000\<close> month first, as
  1 February 10000, and parses nothing else.
\<close>

definition monthFirstHost :: host where
  "monthFirstHost =
     (exampleHost 0)\<lparr>dateParse :=
        (\<lambda>s. if s = asc ''02-01-10000'' then Some (MakeDay 10000 1 1 * msPerDay) else None)\<rparr>"

text \<open>The value of column \<open>k\<close> of a row as the identifier uses it: \<open>String(row[k] ?? '')\<close>.\<close>

definition columnText :: "host \<Rightarrow> row \<Rightarrow> jstring \<Rightarrow> jstring" where
  "columnText h r k = toStrOrEmpty h (map_of r k)"

text \<open>The text of a row that is indexed: its values joined by single spaces.\<close>

definition rowText :: "host \<Rightarrow> row \<Rightarrow> jstring" where
  "rowText h r = joinWith [32] (map (\<lambda>v. toStrOrEmpty h (Some v)) (map snd r))"

text \<open>A row matches a query when its normalized text contains every term of the query.\<close>

definition rowMatches :: "host \<Rightarrow> jstring \<Rightarrow> row \<Rightarrow> bool" where
  "rowMatches h q r =
     (\<forall>t \<in> set (searchTerms h q). isInfix t (normalizeText h (rowText h r)))"

text \<open>The terms of a text separated by white space of any kind, for comparison.\<close>

fun splitWhen :: "(nat \<Rightarrow> bool) \<Rightarrow> jstring \<Rightarrow> jstring list" where
  "splitWhen P [] = [[]]"
| "splitWhen P (x # xs) =
     (if P x then [] # splitWhen P xs
      else (case splitWhen P xs of [] \<Rightarrow> [[x]] | w # ws \<Rightarrow> (x # w) # ws))"

definition whiteSpaceTerms :: "jstring \<Rightarrow> jstring list" where
  "whiteSpaceTerms s = filter (\<lambda>t. t \<noteq> []) (splitWhen isWhiteSpace s)"

text \<open>Two rows and a query for the examples: the names Maria Garcia and Maria Lopez, written
  with their accents (code units 237 and 243), and a query with a tab.\<close>

definition mariaGarcia :: row where
  "mariaGarcia = [(asc ''Nombre'', Str (asc ''Mar'' @ 237 # asc ''a Garc'' @ 237 # asc ''a''))]"

definition mariaLopez :: row where
  "mariaLopez = [(asc ''Nombre'', Str (asc ''Mar'' @ 237 # asc ''a L'' @ 243 # asc ''pez''))]"

definition tabQuery :: jstring where
  "tabQuery = asc ''maria'' @ 9 # asc ''garcia''"

section \<open>Calendar arithmetic\<close>


lemma div_lower: "0 < c \<Longrightarrow> c * (a div c) \<le> (a::int)"
  by (metis add.commute mult.commute div_mult_mod_eq pos_mod_sign le_add_same_cancel1)

lemma div_upper: "0 < c \<Longrightarrow> a < c * (a div c) + (c::int)"
  by (metis add.commute mult.commute div_mult_mod_eq add_less_cancel_left pos_mod_bound)

lemma DayFromYear_lower: "146097 * (y - 1970) - 506 \<le> 400 * DayFromYear y"
proof -
  define q4 where "q4 = (y - 1969) div 4"
  define q100 where "q100 = (y - 1901) div 100"
  define q400 where "q400 = (y - 1601) div 400"
  have a: "y - 1969 < 4 * q4 + 4"
    unfolding q4_def by (rule div_upper) simp
  have b: "100 * q100 \<le> y - 1901"
    unfolding q100_def by (rule div_lower) simp
  have c: "y - 1601 < 400 * q400 + 400"
    unfolding q400_def by (rule div_upper) simp
  have d: "DayFromYear y = 365 * (y - 1970) + q4 - q100 + q400"
    unfolding DayFromYear_def q4_def q100_def q400_def by simp
  show ?thesis unfolding d using a b c by (simp add: algebra_simps)
qed

lemma DayFromYear_upper: "400 * DayFromYear y \<le> 146097 * (y - 1970) + 589"
proof -
  define q4 where "q4 = (y - 1969) div 4"
  define q100 where "q100 = (y - 1901) div 100"
  define q400 where "q400 = (y - 1601) div 400"
  have a: "4 * q4 \<le> y - 1969"
    unfolding q4_def by (rule div_lower) simp
  have b: "y - 1901 < 100 * q100 + 100"
    unfolding q100_def by (rule div_upper) simp
  have c: "400 * q400 \<le> y - 1601"
    unfolding q400_def by (rule div_lower) simp
  have d: "DayFromYear y = 365 * (y - 1970) + q4 - q100 + q400"
    unfolding DayFromYear_def q4_def q100_def q400_def by simp
  show ?thesis unfolding d using a b c by (simp add: algebra_simps)
qed

lemma YearFromDay_bounds:
  "DayFromYear (YearFromDay d) \<le> d \<and> d < DayFromYear (YearFromDay d + 1)"
proof -
  define q where "q = (400 * d) div 146097"
  define e where "e = 1970 + q"
  have q1: "146097 * q \<le> 400 * d"
    unfolding q_def by (rule div_lower) simp
  have q2: "400 * d < 146097 * q + 146097"
    unfolding q_def by (rule div_upper) simp
  have lo: "DayFromYear (e - 1) \<le> d"
    using DayFromYear_upper [of "e - 1"] q1 unfolding e_def by (simp add: algebra_simps)
  have hi: "d < DayFromYear (e + 2)"
    using DayFromYear_lower [of "e + 2"] q2 unfolding e_def by (simp add: algebra_simps)
  have "YearFromDay d =
      (if d < DayFromYear e then e - 1 else if DayFromYear (e + 1) \<le> d then e + 1 else e)"
    unfolding YearFromDay_def e_def q_def Let_def by simp
  then show ?thesis using lo hi by (auto simp: algebra_simps)
qed

lemma div_step:
  assumes "0 < (c::int)"
  shows "(a + 1) div c = a div c + (if (a + 1) mod c = 0 then 1 else 0)"
proof -
  define q where "q = a div c"
  define r where "r = a mod c"
  have a: "a = c * q + r" unfolding q_def r_def by simp
  have r: "0 \<le> r" "r < c" unfolding r_def using assms by simp_all
  show ?thesis
  proof (cases "r + 1 = c")
    case True
    then have e: "a + 1 = c * (q + 1) + 0" using a by (simp add: algebra_simps)
    have "(a + 1) div c = q + 1"
      using e assms by (intro int_div_pos_eq [where r = 0]) simp_all
    moreover have "(a + 1) mod c = 0"
      using e assms by (intro int_mod_pos_eq [where q = "q + 1"]) simp_all
    ultimately show ?thesis unfolding q_def by simp
  next
    case False
    then have b: "r + 1 < c" using r by simp
    have e: "a + 1 = c * q + (r + 1)" using a by simp
    have "(a + 1) div c = q"
      using e b r by (intro int_div_pos_eq [where r = "r + 1"]) simp_all
    moreover have "(a + 1) mod c = r + 1"
      using e b r by (intro int_mod_pos_eq [where q = q]) simp_all
    ultimately show ?thesis unfolding q_def using r by simp
  qed
qed

lemma div_shift_step:
  assumes "0 < (c::int)" and "(k - 1) mod c = 0"
  shows "(y + 1 - k) div c = (y - k) div c + (if y mod c = 0 then 1 else 0)"
proof -
  have e: "y + 1 - k = (y - k) + 1" by simp
  have "(y - (k - 1)) mod c = (y mod c - (k - 1) mod c) mod c"
    by (simp only: mod_diff_eq)
  then have "(y - (k - 1)) mod c = y mod c" using assms(2) by simp
  moreover have "y - (k - 1) = y - k + 1" by simp
  ultimately have m: "((y - k + 1) mod c = 0) = (y mod c = 0)" by simp
  show ?thesis unfolding e using div_step [OF assms(1), of "y - k"] m by simp
qed

lemma mod_100_4: "(y::int) mod 100 = 0 \<Longrightarrow> y mod 4 = 0"
  by force

lemma mod_400_100: "(y::int) mod 400 = 0 \<Longrightarrow> y mod 100 = 0"
  by force

lemma DayFromYear_Suc:
  "DayFromYear (y + 1) = DayFromYear y + (if InLeapYear y then 366 else 365)"
proof -
  define q4 where "q4 = (y - 1969) div 4"
  define q100 where "q100 = (y - 1901) div 100"
  define q400 where "q400 = (y - 1601) div 400"
  define b4 where "b4 = (if y mod 4 = 0 then 1 else (0::int))"
  define b100 where "b100 = (if y mod 100 = 0 then 1 else (0::int))"
  define b400 where "b400 = (if y mod 400 = 0 then 1 else (0::int))"
  have s4: "(y + 1 - 1969) div 4 = q4 + b4"
    unfolding q4_def b4_def by (rule div_shift_step) simp_all
  have s100: "(y + 1 - 1901) div 100 = q100 + b100"
    unfolding q100_def b100_def by (rule div_shift_step) simp_all
  have s400: "(y + 1 - 1601) div 400 = q400 + b400"
    unfolding q400_def b400_def by (rule div_shift_step) simp_all
  have l: "(if InLeapYear y then 366 else 365) = 365 + b4 - b100 + b400"
    unfolding InLeapYear_def b4_def b100_def b400_def
    using mod_100_4 [of y] mod_400_100 [of y]
    by (cases "y mod 4 = 0"; cases "y mod 100 = 0"; cases "y mod 400 = 0") simp_all
  have "DayFromYear (y + 1) = 365 * (y + 1 - 1970) + (q4 + b4) - (q100 + b100) + (q400 + b400)"
    unfolding DayFromYear_def s4 s100 s400 by (rule refl)
  moreover have "DayFromYear y = 365 * (y - 1970) + q4 - q100 + q400"
    unfolding DayFromYear_def q4_def q100_def q400_def by (rule refl)
  ultimately show ?thesis unfolding l by simp
qed

lemma DayFromYear_add: "DayFromYear y + 365 * int n \<le> DayFromYear (y + int n)"
proof (induction n)
  case 0
  then show ?case by simp
next
  case (Suc n)
  have "DayFromYear (y + int (Suc n)) = DayFromYear ((y + int n) + 1)"
    by (simp add: algebra_simps)
  also have "\<dots> \<ge> DayFromYear (y + int n) + 365"
    unfolding DayFromYear_Suc by simp
  finally show ?case using Suc by simp
qed

lemma DayFromYear_mono: "y \<le> z \<Longrightarrow> DayFromYear y \<le> DayFromYear z"
proof -
  assume "y \<le> z"
  then obtain n where "z = y + int n" by (metis zle_iff_zadd)
  then show ?thesis using DayFromYear_add [of y n] by simp
qed

lemma YearFromDay_unique:
  assumes "DayFromYear y \<le> d" and "d < DayFromYear (y + 1)"
  shows "YearFromDay d = y"
proof (rule ccontr)
  assume neq: "YearFromDay d \<noteq> y"
  note b = YearFromDay_bounds [of d]
  show False
  proof (cases "YearFromDay d < y")
    case True
    then have "DayFromYear (YearFromDay d + 1) \<le> DayFromYear y"
      by (intro DayFromYear_mono) simp
    then show False using b assms by simp
  next
    case False
    then have "DayFromYear (y + 1) \<le> DayFromYear (YearFromDay d)"
      using neq by (intro DayFromYear_mono) simp
    then show False using b assms by simp
  qed
qed

lemma fromDay_within:
  assumes "0 \<le> w" and "w < (if InLeapYear y then 366 else 365)"
  shows "YearFromDay (DayFromYear y + w) = y" and "DayWithinYear (DayFromYear y + w) = w"
proof -
  show y: "YearFromDay (DayFromYear y + w) = y"
    using assms by (intro YearFromDay_unique) (simp_all add: DayFromYear_Suc)
  show "DayWithinYear (DayFromYear y + w) = w"
    unfolding DayWithinYear_def y by simp
qed

lemma DayWithinYear_range:
  "0 \<le> DayWithinYear d \<and> DayWithinYear d < (if InLeapYear (YearFromDay d) then 366 else 365)"
  using YearFromDay_bounds [of d] DayFromYear_Suc [of "YearFromDay d"]
  unfolding DayWithinYear_def by auto

lemma monthStart_simps:
  "monthStart 0 leap = 0" "monthStart 1 leap = 31"
  "monthStart 2 leap = (if leap then 60 else 59)" "monthStart 3 leap = (if leap then 91 else 90)"
  "monthStart 4 leap = (if leap then 121 else 120)" "monthStart 5 leap = (if leap then 152 else 151)"
  "monthStart 6 leap = (if leap then 182 else 181)" "monthStart 7 leap = (if leap then 213 else 212)"
  "monthStart 8 leap = (if leap then 244 else 243)" "monthStart 9 leap = (if leap then 274 else 273)"
  "monthStart 10 leap = (if leap then 305 else 304)" "monthStart 11 leap = (if leap then 335 else 334)"
  by (simp_all add: monthStart_def)

lemma monthLength_simps:
  "monthLength leap 1 = 31" "monthLength leap 2 = (if leap then 29 else 28)"
  "monthLength leap 3 = 31" "monthLength leap 4 = 30" "monthLength leap 5 = 31"
  "monthLength leap 6 = 30" "monthLength leap 7 = 31" "monthLength leap 8 = 31"
  "monthLength leap 9 = 30" "monthLength leap 10 = 31" "monthLength leap 11 = 30"
  "monthLength leap 12 = 31"
  by (simp_all add: monthLength_def)

lemma month_cases:
  assumes "0 \<le> (m::int)" and "m \<le> 11"
  shows "m = 0 \<or> m = 1 \<or> m = 2 \<or> m = 3 \<or> m = 4 \<or> m = 5 \<or> m = 6 \<or> m = 7 \<or> m = 8
      \<or> m = 9 \<or> m = 10 \<or> m = 11"
  using assms by arith

lemma monthOf_unique_leap:
  assumes "0 \<le> m" and "m \<le> 11"
    and "monthStart m True \<le> w" and "w < monthStart m True + monthLength True (m + 1)"
  shows "monthOf w True = m"
  using month_cases [OF assms(1,2)] assms(3,4) unfolding monthOf_def
  by (elim disjE) (simp_all add: monthStart_simps monthLength_simps)

lemma monthOf_unique_common:
  assumes "0 \<le> m" and "m \<le> 11"
    and "monthStart m False \<le> w" and "w < monthStart m False + monthLength False (m + 1)"
  shows "monthOf w False = m"
  using month_cases [OF assms(1,2)] assms(3,4) unfolding monthOf_def
  by (elim disjE) (simp_all add: monthStart_simps monthLength_simps)

text \<open>A month \<open>m\<close> holds the days from its start to its start plus its length.\<close>

lemma monthOf_unique:
  assumes "0 \<le> m" and "m \<le> 11"
    and "monthStart m leap \<le> w" and "w < monthStart m leap + monthLength leap (m + 1)"
  shows "monthOf w leap = m"
  using assms monthOf_unique_leap [of m w] monthOf_unique_common [of m w]
  by (cases leap) simp_all

lemma monthStart_mono_end:
  assumes "0 \<le> m" and "m \<le> 11"
  shows "0 \<le> monthStart m leap
    \<and> monthStart m leap + monthLength leap (m + 1) \<le> (if leap then 366 else 365)"
  using month_cases [OF assms]
  by (elim disjE) (simp_all add: monthStart_simps monthLength_simps)

lemma monthOf_range: "0 \<le> monthOf w leap \<and> monthOf w leap \<le> 11"
  unfolding monthOf_def by simp

lemma monthOf_holds_leap:
  assumes "0 \<le> w" and "w < 366"
  shows "monthStart (monthOf w True) True \<le> w
    \<and> w < monthStart (monthOf w True) True + monthLength True (monthOf w True + 1)"
proof -
  consider "w < 31" | "31 \<le> w \<and> w < 60" | "60 \<le> w \<and> w < 91" | "91 \<le> w \<and> w < 121"
    | "121 \<le> w \<and> w < 152" | "152 \<le> w \<and> w < 182" | "182 \<le> w \<and> w < 213"
    | "213 \<le> w \<and> w < 244" | "244 \<le> w \<and> w < 274" | "274 \<le> w \<and> w < 305"
    | "305 \<le> w \<and> w < 335" | "335 \<le> w" by linarith
  then show ?thesis
    using assms by cases (simp_all add: monthOf_def monthStart_simps monthLength_simps)
qed

lemma monthOf_holds_common:
  assumes "0 \<le> w" and "w < 365"
  shows "monthStart (monthOf w False) False \<le> w
    \<and> w < monthStart (monthOf w False) False + monthLength False (monthOf w False + 1)"
proof -
  consider "w < 31" | "31 \<le> w \<and> w < 59" | "59 \<le> w \<and> w < 90" | "90 \<le> w \<and> w < 120"
    | "120 \<le> w \<and> w < 151" | "151 \<le> w \<and> w < 181" | "181 \<le> w \<and> w < 212"
    | "212 \<le> w \<and> w < 243" | "243 \<le> w \<and> w < 273" | "273 \<le> w \<and> w < 304"
    | "304 \<le> w \<and> w < 334" | "334 \<le> w" by linarith
  then show ?thesis
    using assms by cases (simp_all add: monthOf_def monthStart_simps monthLength_simps)
qed

lemma monthOf_holds:
  assumes "0 \<le> w" and "w < (if leap then 366 else 365)"
  shows "monthStart (monthOf w leap) leap \<le> w
    \<and> w < monthStart (monthOf w leap) leap + monthLength leap (monthOf w leap + 1)"
  using assms monthOf_holds_leap [of w] monthOf_holds_common [of w]
  by (cases leap) simp_all

lemma monthLength_le_31: "monthLength leap m \<le> 31"
  by (simp add: monthLength_def)

lemma MonthFromDay_range: "0 \<le> MonthFromDay d \<and> MonthFromDay d \<le> 11"
  unfolding MonthFromDay_def by (rule monthOf_range)

lemma DateFromDay_bounds:
  "1 \<le> DateFromDay d
   \<and> DateFromDay d \<le> monthLength (InLeapYear (YearFromDay d)) (MonthFromDay d + 1)"
  using monthOf_holds [of "DayWithinYear d" "InLeapYear (YearFromDay d)"]
    DayWithinYear_range [of d]
  unfolding DateFromDay_def MonthFromDay_def by simp

lemma DateFromDay_range: "1 \<le> DateFromDay d \<and> DateFromDay d \<le> 31"
  using DateFromDay_bounds [of d]
    monthLength_le_31 [of "InLeapYear (YearFromDay d)" "MonthFromDay d + 1"]
  by simp

lemma validDate_fromDay: "validDate (YearFromDay dn) (MonthFromDay dn + 1) (DateFromDay dn)"
  using DateFromDay_bounds [of dn] MonthFromDay_range [of dn]
  by (simp add: validDate_def daysInMonth_def)

lemma MakeDay_fromDay: "MakeDay (YearFromDay d) (MonthFromDay d) (DateFromDay d) = d"
proof -
  have "MonthFromDay d div 12 = 0" and "MonthFromDay d mod 12 = MonthFromDay d"
    using MonthFromDay_range [of d] by simp_all
  then show ?thesis
    unfolding MakeDay_def Let_def DateFromDay_def DayWithinYear_def by simp
qed

lemma fromDay_MakeDay:
  assumes "validDate y m d"
  shows "YearFromDay (MakeDay y (m - 1) d) = y"
    and "MonthFromDay (MakeDay y (m - 1) d) = m - 1"
    and "DateFromDay (MakeDay y (m - 1) d) = d"
proof -
  define l where "l = InLeapYear y"
  define w where "w = monthStart (m - 1) l + d - 1"
  have m: "0 \<le> m - 1" "m - 1 \<le> 11" and d: "1 \<le> d" "d \<le> monthLength l m"
    using assms unfolding validDate_def daysInMonth_def l_def by simp_all
  have dm: "(m - 1) div 12 = 0" "(m - 1) mod 12 = m - 1" using m by simp_all
  have md: "MakeDay y (m - 1) d = DayFromYear y + w"
    unfolding MakeDay_def Let_def dm w_def l_def by simp
  have e: "0 \<le> monthStart (m - 1) l
      \<and> monthStart (m - 1) l + monthLength l (m - 1 + 1) \<le> (if l then 366 else 365)"
    by (rule monthStart_mono_end [OF m])
  have w0: "0 \<le> w" using e d by (simp add: w_def)
  have w1: "w < (if InLeapYear y then 366 else 365)" using e d by (simp add: w_def l_def)
  show yy: "YearFromDay (MakeDay y (m - 1) d) = y"
    unfolding md by (rule fromDay_within(1) [OF w0 w1])
  have dw: "DayWithinYear (MakeDay y (m - 1) d) = w"
    unfolding md by (rule fromDay_within(2) [OF w0 w1])
  have "monthOf w l = m - 1"
    using d by (intro monthOf_unique [OF m]) (simp_all add: w_def)
  then show mm: "MonthFromDay (MakeDay y (m - 1) d) = m - 1"
    unfolding MonthFromDay_def dw yy l_def by simp
  show "DateFromDay (MakeDay y (m - 1) d) = d"
    unfolding DateFromDay_def mm yy dw by (simp add: w_def l_def)
qed

lemma set_setAdd: "set (setAdd x s) = insert x (set s)"
  by (auto simp: setAdd_def)

lemma distinct_setAdd: "distinct s \<Longrightarrow> distinct (setAdd x s)"
  by (auto simp: setAdd_def)

lemma set_fold_setAdd: "set (fold setAdd xs acc) = set acc \<union> set xs"
  by (induction xs arbitrary: acc) (auto simp: set_setAdd)

lemma distinct_fold_setAdd: "distinct acc \<Longrightarrow> distinct (fold setAdd xs acc)"
  by (induction xs arbitrary: acc) (auto simp: distinct_setAdd)

lemma set_fromSet: "set (fromSet xs) = set xs"
  by (simp add: fromSet_def set_fold_setAdd)

lemma distinct_fromSet: "distinct (fromSet xs)"
  by (simp add: fromSet_def distinct_fold_setAdd)

lemma processRow_map_of:
  "distinct dhs \<Longrightarrow>
   map_of (processRow h dhs r) k =
     (if k \<in> set dhs
      then (case normalizeValue h (map_of r k) of Some v \<Rightarrow> Some v | None \<Rightarrow> map_of r k)
      else map_of r k)"
proof (induction dhs arbitrary: r)
  case Nil
  then show ?case by (simp add: processRow_def)
next
  case (Cons a dhs)
  define r1 where "r1 = (case normalizeValue h (map_of r a) of
                           Some v \<Rightarrow> AList.update a v r | None \<Rightarrow> r)"
  have step: "processRow h (a # dhs) r = processRow h dhs r1"
    by (simp add: processRow_def r1_def)
  have ih: "map_of (processRow h dhs r1) k =
     (if k \<in> set dhs
      then (case normalizeValue h (map_of r1 k) of Some v \<Rightarrow> Some v | None \<Rightarrow> map_of r1 k)
      else map_of r1 k)"
    using Cons by simp
  have r1a: "map_of r1 a = (case normalizeValue h (map_of r a) of Some v \<Rightarrow> Some v | None \<Rightarrow> map_of r a)"
    by (simp add: r1_def update_conv' split: option.splits)
  have r1k: "k \<noteq> a \<Longrightarrow> map_of r1 k = map_of r k"
    by (simp add: r1_def update_conv' split: option.splits)
  show ?case
  proof (cases "k = a")
    case True
    then have "k \<notin> set dhs" using Cons.prems by simp
    then show ?thesis unfolding step ih using True r1a by (simp split: option.splits)
  next
    case False
    then show ?thesis unfolding step ih using r1k by (simp split: option.splits)
  qed
qed

lemma processAndResolve_cell:
  assumes "i < length dat" and "map_of (dat ! i) k = Some v" and "isDateHeader h k"
  shows "map_of (data (processAndResolve h dat) ! i) k =
           Some (case normalizeValue h (Some v) of Some v' \<Rightarrow> v' | None \<Rightarrow> v)"
proof -
  define hs where "hs = fromSet (concat (map (map fst) dat))"
  define dhs where "dhs = filter (isDateHeader h) hs"
  have ne: "dat \<noteq> []" using assms(1) by auto
  have "k \<in> fst ` set (dat ! i)" using assms(2) by (metis map_of_eq_None_iff option.distinct(1))
  then have "k \<in> set (concat (map (map fst) dat))" using assms(1) by auto
  then have k: "k \<in> set dhs" using assms(3) by (simp add: dhs_def hs_def set_fromSet)
  then have dne: "dhs \<noteq> []" by auto
  have dd: "distinct dhs" by (simp add: dhs_def hs_def distinct_fromSet)
  have "data (processAndResolve h dat) = map (processRow h dhs) dat"
    using ne dne by (simp add: processAndResolve_def processDataForDates_def Let_def dhs_def hs_def)
  then have "map_of (data (processAndResolve h dat) ! i) k = map_of (processRow h dhs (dat ! i)) k"
    using assms(1) by simp
  also have "\<dots> = Some (case normalizeValue h (Some v) of Some v' \<Rightarrow> v' | None \<Rightarrow> v)"
    using k assms(2) by (simp add: processRow_map_of [OF dd] split: option.splits)
  finally show ?thesis .
qed

lemma Day_local:
  assumes "0 \<le> z" and "z < msPerDay"
  shows "Day (n * msPerDay + z) = n"
  unfolding Day_def using assms by (simp add: msPerDay_def)

lemma YearFromDay_ge_1970: "0 \<le> d \<Longrightarrow> 1970 \<le> YearFromDay d"
proof (rule ccontr)
  assume d: "0 \<le> d" and "\<not> 1970 \<le> YearFromDay d"
  then have "DayFromYear (YearFromDay d + 1) \<le> DayFromYear 1970"
    by (intro DayFromYear_mono) simp
  moreover have "DayFromYear 1970 = 0" by (simp add: DayFromYear_def)
  ultimately show False using YearFromDay_bounds [of d] d by simp
qed

lemma serial_cell:
  assumes "0 \<le> LocalTZA h" and "LocalTZA h < msPerDay" and "25569 < n"
  shows "normalizeValue h (Some (Num n)) =
     (if n \<le> 100025569
      then Some (Str (padStart2 (showInt (DateFromDay (n - 25569))) @ [45]
                        @ padStart2 (showInt (MonthFromDay (n - 25569) + 1)) @ [45]
                        @ showInt (YearFromDay (n - 25569))))
      else None)"
proof (cases "n \<le> 100025569")
  case True
  define t where "t = (n - 25569) * 86400 * 1000"
  have t: "t = (n - 25569) * msPerDay" by (simp add: t_def msPerDay_def)
  have "\<bar>t\<bar> \<le> 8640000000000000" using True assms(3) by (simp add: t_def)
  then have p: "parseCellDate h (Some (Num n)) = Some (Some t)"
    using assms(3) by (simp add: parseCellDate_def newDateMs_def TimeClip_def t_def)
  have d: "Day (t + LocalTZA h) = n - 25569"
    unfolding t by (rule Day_local [OF assms(1,2)])
  have y: "1000 < YearFromDay (n - 25569)"
    using YearFromDay_ge_1970 [of "n - 25569"] assms(3) by simp
  show ?thesis
    using True y
    by (simp add: normalizeValue_def p getFullYear_def getMonth_def getDate_def d formatDate_def)
next
  case False
  then have "\<bar>(n - 25569) * 86400 * 1000\<bar> > 8640000000000000" by simp
  then have "parseCellDate h (Some (Num n)) = Some None"
    using assms(3) by (simp add: parseCellDate_def newDateMs_def TimeClip_def)
  then show ?thesis using False by (simp add: normalizeValue_def)
qed

lemma serial_cell_formatDay:
  assumes "0 \<le> LocalTZA h" and "LocalTZA h < msPerDay" and "25569 < n"
  shows "normalizeValue h (Some (Num n)) =
     (if n \<le> 100025569 then Some (Str (formatDay (n - 25569))) else None)"
  using serial_cell [OF assms] by (simp add: formatDay_def ddmmyyyy_def)

lemma example_date_header: "isDateHeader (exampleHost z) (asc ''fecha'')"
  by code_simp

lemma formatDay_19358: "formatDay 19358 = asc ''01-01-2023''"
  by code_simp

lemma epoch_1899: "formatDay (0 - 25569) = asc ''30-12-1899''"
  by code_simp

section \<open>Spreadsheet serial numbers\<close>

text \<open>
  Claim C4 says that every numeric cell above 25569 in a date column is formatted. A
  serial number whose instant lies beyond the range of \<open>Date\<close> gives an invalid date,
  and the cell is left as it is: 100025570 stays a number.
\<close>

theorem serial_huge_counterexample:
  "(25569::int) < 100025570 \<and> isDateHeader (exampleHost 0) (asc ''fecha'')
   \<and> map_of (data (processAndResolve (exampleHost 0) [[(asc ''fecha'', Num 100025570)]]) ! 0)
        (asc ''fecha'') = Some (Num 100025570)"
proof -
  have t: "0 \<le> LocalTZA (exampleHost 0)" "LocalTZA (exampleHost 0) < msPerDay"
    by (simp_all add: exampleHost_def msPerDay_def)
  have "normalizeValue (exampleHost 0) (Some (Num 100025570)) = None"
    using serial_cell_formatDay [OF t, of 100025570] by simp
  then show ?thesis
    using processAndResolve_cell [of 0 "[[(asc ''fecha'', Num 100025570)]]" "asc ''fecha''"
        "Num 100025570" "exampleHost 0"] example_date_header [of 0]
    by simp
qed

text \<open>
  Claim C4, as the code has it. Where the local zone is at or east of UTC by less than a
  day, a whole-number cell \<open>n\<close> above 25569 and up to 100025569 in a date column
  becomes the rendering of the calendar date of day \<open>n - 25569\<close> after 1 January 1970
  (day and month padded to two digits, the year in full), a larger one is left as it is;
  day 0 of the count is 30 December 1899, and 44927 gives \<open>01-01-2023\<close>. The getters
  of \<open>formatDate\<close> read local time; nothing is stated for zones west of UTC.
\<close>

theorem spreadsheet_serial_date:
  assumes "0 \<le> LocalTZA h" and "LocalTZA h < msPerDay"
    and "i < length dat" and "map_of (dat ! i) k = Some (Num n)" and "isDateHeader h k"
    and "25569 < n"
  shows "map_of (data (processAndResolve h dat) ! i) k =
           Some (if n \<le> 100025569 then Str (formatDay (n - 25569)) else Num n)
         \<and> formatDay (0 - 25569) = asc ''30-12-1899''
         \<and> (n = 44927 \<longrightarrow>
              map_of (data (processAndResolve h dat) ! i) k = Some (Str (asc ''01-01-2023'')))"
proof -
  have c: "map_of (data (processAndResolve h dat) ! i) k =
           Some (if n \<le> 100025569 then Str (formatDay (n - 25569)) else Num n)"
    using processAndResolve_cell [OF assms(3,4,5)] serial_cell_formatDay [OF assms(1,2,6)]
    by simp
  moreover have "n = 44927 \<longrightarrow>
      map_of (data (processAndResolve h dat) ! i) k = Some (Str (asc ''01-01-2023''))"
    using c formatDay_19358 by simp
  ultimately show ?thesis using epoch_1899 by simp
qed

theorem spreadsheet_serial_date_witness:
  "0 \<le> LocalTZA (exampleHost 0) \<and> LocalTZA (exampleHost 0) < msPerDay
   \<and> (0::nat) < length [[(asc ''fecha'', Num 44927)]]
   \<and> map_of ([[(asc ''fecha'', Num 44927)]] ! 0) (asc ''fecha'') = Some (Num 44927)
   \<and> isDateHeader (exampleHost 0) (asc ''fecha'') \<and> (25569::int) < 44927
   \<and> map_of (data (processAndResolve (exampleHost 0) [[(asc ''fecha'', Num 44927)]]) ! 0)
        (asc ''fecha'') = Some (Str (asc ''01-01-2023''))"
proof -
  have a: "0 \<le> LocalTZA (exampleHost 0)" and b: "LocalTZA (exampleHost 0) < msPerDay"
    by (simp_all add: exampleHost_def msPerDay_def)
  have c: "(0::nat) < length [[(asc ''fecha'', Num 44927)]]" by simp
  have d: "map_of ([[(asc ''fecha'', Num 44927)]] ! 0) (asc ''fecha'') = Some (Num 44927)"
    by simp
  have e: "isDateHeader (exampleHost 0) (asc ''fecha'')" by (rule example_date_header)
  have f: "(25569::int) < 44927" by simp
  show ?thesis
    using spreadsheet_serial_date [OF a b c d e f] a b c d e f
    by (simp add: formatDay_19358)
qed

text \<open>Five hours west of UTC the same cell reads as the day before.\<close>

lemma serial_west_of_UTC:
  "map_of (data (processAndResolve (exampleHost (- 18000000)) [[(asc ''fecha'', Num 44927)]]) ! 0)
     (asc ''fecha'') = Some (Str (asc ''31-12-2022''))"
  by code_simp

lemma takeWhile_digits:
  "list_all isDigit ds \<Longrightarrow> \<not> isDigit c \<Longrightarrow> takeWhile isDigit (ds @ c # r) = ds"
  by (induction ds) auto

lemma dropWhile_digits:
  "list_all isDigit ds \<Longrightarrow> \<not> isDigit c \<Longrightarrow> dropWhile isDigit (ds @ c # r) = c # r"
  by (induction ds) auto

lemma isSep_not_digit: "isSep c \<Longrightarrow> \<not> isDigit c"
  by (auto simp: isSep_def isDigit_def)

lemma matchDMY_shape:
  assumes "dmyShape ds c1 ms c2 ys"
  shows "matchDMY (ds @ c1 # ms @ c2 # ys) = Some (ds, ms, ys)"
proof -
  have d: "list_all isDigit ds" "1 \<le> length ds" "length ds \<le> 2"
    and m: "list_all isDigit ms" "1 \<le> length ms" "length ms \<le> 2"
    and y: "list_all isDigit ys" "2 \<le> length ys" "length ys \<le> 4"
    and c: "\<not> isDigit c1" "\<not> isDigit c2" "isSep c1" "isSep c2"
    using assms by (simp_all add: dmyShape_def isSep_not_digit)
  have t1: "takeWhile isDigit (ds @ c1 # ms @ c2 # ys) = ds"
    by (rule takeWhile_digits [OF d(1) c(1)])
  have d1: "dropWhile isDigit (ds @ c1 # ms @ c2 # ys) = c1 # ms @ c2 # ys"
    by (rule dropWhile_digits [OF d(1) c(1)])
  have t2: "takeWhile isDigit (ms @ c2 # ys) = ms"
    by (rule takeWhile_digits [OF m(1) c(2)])
  have d2: "dropWhile isDigit (ms @ c2 # ys) = c2 # ys"
    by (rule dropWhile_digits [OF m(1) c(2)])
  show ?thesis
    unfolding matchDMY_def Let_def t1 d1 using d m y c
    by (auto simp: t2 d2)
qed

lemma parseInt_snoc: "parseInt (s @ [c]) = 10 * parseInt s + (int c - 48)"
  by (simp add: parseInt_def)

lemma parseInt_range:
  "list_all isDigit s \<Longrightarrow> 0 \<le> parseInt s \<and> parseInt s < 10 ^ length s"
proof (induction s rule: rev_induct)
  case Nil
  then show ?case by (simp add: parseInt_def)
next
  case (snoc c s)
  then have "0 \<le> parseInt s" "parseInt s + 1 \<le> 10 ^ length s" "48 \<le> c" "c \<le> 57"
    by (simp_all add: isDigit_def)
  then show ?case unfolding parseInt_snoc by simp
qed

lemma parseInt_le_99:
  assumes "list_all isDigit s" and "length s \<le> 2"
  shows "0 \<le> parseInt s \<and> parseInt s \<le> 99"
proof -
  have "(10::int) ^ length s \<le> 10 ^ 2" using assms(2) by (intro power_increasing) simp_all
  then show ?thesis using parseInt_range [OF assms(1)] by simp
qed

lemma parseInt_le_9999:
  assumes "list_all isDigit s" and "length s \<le> 4"
  shows "0 \<le> parseInt s \<and> parseInt s \<le> 9999"
proof -
  have "(10::int) ^ length s \<le> 10 ^ 4" using assms(2) by (intro power_increasing) simp_all
  then show ?thesis using parseInt_range [OF assms(1)] by simp
qed

lemma monthStart_range: "0 \<le> monthStart m l \<and> monthStart m l \<le> 335"
  by (simp add: monthStart_def Let_def)

lemma DayFromYear_range:
  assumes "99 \<le> y" and "y \<le> 10008"
  shows "- 700000 \<le> DayFromYear y \<and> DayFromYear y \<le> 3000000"
  using DayFromYear_lower [of y] DayFromYear_upper [of y] assms by simp

lemma MakeDay_range:
  assumes "100 \<le> y" and "y \<le> 9999" and "- 1 \<le> m" and "m \<le> 98" and "0 \<le> d" and "d \<le> 99"
  shows "- 700001 \<le> MakeDay y m d \<and> MakeDay y m d \<le> 3000500"
proof -
  define q where "q = m div 12"
  have "12 * q \<le> m" unfolding q_def by (rule div_lower) simp
  moreover have "m < 12 * q + 12" unfolding q_def by (rule div_upper) simp
  ultimately have q: "- 1 \<le> q" "q \<le> 8" using assms by simp_all
  have "- 700000 \<le> DayFromYear (y + q) \<and> DayFromYear (y + q) \<le> 3000000"
    using assms q by (intro DayFromYear_range) simp_all
  then show ?thesis
    using monthStart_range [of "m mod 12" "InLeapYear (y + q)"] assms
    unfolding MakeDay_def Let_def q_def by simp
qed

lemma newDateYMD_valid:
  assumes "\<bar>LocalTZA h\<bar> \<le> msPerDay"
    and "100 \<le> y" and "y \<le> 9999" and "- 1 \<le> m" and "m \<le> 98" and "0 \<le> d" and "d \<le> 99"
  shows "newDateYMD h y m d = Some (MakeDay y m d * msPerDay - LocalTZA h)"
proof -
  have "\<bar>MakeDay y m d * msPerDay - LocalTZA h\<bar> \<le> 8640000000000000"
    using MakeDay_range [OF assms(2-7)] assms(1) unfolding msPerDay_def by linarith
  then show ?thesis using assms(2) by (simp add: newDateYMD_def TimeClip_def Let_def)
qed

lemma Day_of_local: "Day (dn * msPerDay - z + z) = dn"
  by (simp add: Day_def msPerDay_def)

lemma Day_mult: "Day (dn * msPerDay) = dn"
  by (simp add: Day_def msPerDay_def)

lemma expandYear_range:
  assumes "list_all isDigit ys" and "length ys \<le> 4"
  shows "100 \<le> expandYear (parseInt ys) \<and> expandYear (parseInt ys) \<le> 9999"
  using parseInt_le_9999 [OF assms] by (simp add: expandYear_def)

lemma formatDate_formatDay:
  "formatDate h (Some (dn * msPerDay - LocalTZA h)) = formatDay dn"
  by (simp add: formatDate_def getDate_def getMonth_def getFullYear_def Day_mult
      formatDay_def ddmmyyyy_def)

lemma dmy_cell:
  assumes "\<bar>LocalTZA h\<bar> \<le> msPerDay" and "dmyShape ds c1 ms c2 ys"
  shows "normalizeValue h (Some (Str (ds @ c1 # ms @ c2 # ys))) =
     (let dn = MakeDay (expandYear (parseInt ys)) (parseInt ms - 1) (parseInt ds) in
      if 1000 < YearFromDay dn then Some (Str (formatDay dn)) else None)"
proof -
  define Y where "Y = expandYear (parseInt ys)"
  define M where "M = parseInt ms - 1"
  define D where "D = parseInt ds"
  have sh: "list_all isDigit ds" "length ds \<le> 2" "list_all isDigit ms" "length ms \<le> 2"
    "list_all isDigit ys" "length ys \<le> 4"
    using assms(2) by (simp_all add: dmyShape_def)
  have Y: "100 \<le> Y" "Y \<le> 9999"
    using expandYear_range [OF sh(5,6)] by (simp_all add: Y_def)
  have M: "- 1 \<le> M" "M \<le> 98" using parseInt_le_99 [OF sh(3,4)] by (simp_all add: M_def)
  have D: "0 \<le> D" "D \<le> 99" using parseInt_le_99 [OF sh(1,2)] by (simp_all add: D_def)
  have nd: "newDateYMD h Y M D = Some (MakeDay Y M D * msPerDay - LocalTZA h)"
    by (rule newDateYMD_valid [OF assms(1) Y M D])
  have p: "parseCellDate h (Some (Str (ds @ c1 # ms @ c2 # ys))) =
      Some (Some (MakeDay Y M D * msPerDay - LocalTZA h))"
  proof -
    have e: "(if parseInt ys < 100 then parseInt ys + 2000 else parseInt ys) = Y"
      by (simp add: Y_def expandYear_def)
    show ?thesis
      unfolding parseCellDate_def
      by (simp add: matchDMY_shape [OF assms(2)] Let_def e nd [unfolded M_def D_def] M_def D_def)
  qed
  show ?thesis
    unfolding normalizeValue_def p Let_def
    by (simp add: getFullYear_def Day_mult formatDate_formatDay Y_def M_def D_def)
qed

lemma showNat_small: "n < 10 \<Longrightarrow> showNat n = [48 + n]"
  by (subst showNat.simps) simp

lemma showNat_step: "10 \<le> n \<Longrightarrow> showNat n = showNat (n div 10) @ [48 + n mod 10]"
  by (subst showNat.simps) simp

lemma showNat_digits: "list_all isDigit (showNat n)"
proof (induction n rule: showNat.induct)
  case (1 n)
  show ?case
  proof (cases "n < 10")
    case True
    then show ?thesis by (simp add: showNat_small isDigit_def)
  next
    case False
    then have a: "list_all isDigit (showNat (n div 10))" using 1 by simp
    have "n mod 10 < 10" by simp
    then have b: "isDigit (48 + n mod 10)" unfolding isDigit_def by linarith
    have c: "showNat n = showNat (n div 10) @ [48 + n mod 10]"
      using False by (intro showNat_step) simp
    show ?thesis unfolding c using a b by simp
  qed
qed

lemma parseInt_showNat: "parseInt (showNat n) = int n"
proof (induction n rule: showNat.induct)
  case (1 n)
  show ?case
  proof (cases "n < 10")
    case True
    then show ?thesis by (simp add: showNat_small parseInt_def)
  next
    case False
    then have a: "parseInt (showNat (n div 10)) = int (n div 10)" using 1 by simp
    have c: "showNat n = showNat (n div 10) @ [48 + n mod 10]"
      using False by (intro showNat_step) simp
    have "int n = 10 * int (n div 10) + int (n mod 10)"
      by (metis of_nat_add of_nat_mult of_nat_numeral mult_div_mod_eq)
    then show ?thesis unfolding c parseInt_snoc a by simp
  qed
qed

lemma length_showNat_step: "10 \<le> n \<Longrightarrow> length (showNat n) = Suc (length (showNat (n div 10)))"
  by (subst showNat.simps) simp

lemma length_showNat_1: "n < 10 \<Longrightarrow> length (showNat n) = 1"
  by (subst showNat.simps) simp

lemma length_showNat_2: "10 \<le> n \<Longrightarrow> n < 100 \<Longrightarrow> length (showNat n) = 2"
proof -
  assume n: "10 \<le> n" "n < 100"
  then have "n div 10 < 10" by simp
  then show ?thesis using n by (simp only: length_showNat_step length_showNat_1)
qed

lemma length_showNat_3: "100 \<le> n \<Longrightarrow> n < 1000 \<Longrightarrow> length (showNat n) = 3"
proof -
  assume n: "100 \<le> n" "n < 1000"
  then have "10 \<le> n div 10" "n div 10 < 100" "10 \<le> n" by simp_all
  then show ?thesis by (simp only: length_showNat_step [of n] length_showNat_2)
qed

lemma length_showNat_4: "1000 \<le> n \<Longrightarrow> n < 10000 \<Longrightarrow> length (showNat n) = 4"
proof -
  assume n: "1000 \<le> n" "n < 10000"
  then have "100 \<le> n div 10" "n div 10 < 1000" "10 \<le> n" by simp_all
  then show ?thesis by (simp only: length_showNat_step [of n] length_showNat_3)
qed

lemma length_showNat_5: "10000 \<le> n \<Longrightarrow> 5 \<le> length (showNat n)"
proof -
  assume n: "10000 \<le> n"
  have "1000 \<le> n div 10" using n by simp
  then have a: "4 \<le> length (showNat (n div 10))"
  proof (induction "n div 10" arbitrary: n rule: less_induct)
    case less
    show ?case
    proof (cases "n div 10 < 10000")
      case True
      then show ?thesis using less.prems length_showNat_4 [of "n div 10"] by simp
    next
      case False
      then have "1000 \<le> n div 10 div 10" by simp
      moreover have "n div 10 div 10 < n div 10" using False by simp
      ultimately have "4 \<le> length (showNat (n div 10 div 10))"
        using less.hyps [of "n div 10"] by simp
      moreover have "length (showNat (n div 10)) = Suc (length (showNat (n div 10 div 10)))"
        using False by (intro length_showNat_step) simp
      ultimately show ?thesis by simp
    qed
  qed
  have "length (showNat n) = Suc (length (showNat (n div 10)))"
    using n by (intro length_showNat_step) simp
  then show ?thesis using a by simp
qed


lemma pad2_props:
  assumes "0 \<le> v" and "v \<le> 99"
  shows "list_all isDigit (padStart2 (showInt v))"
    and "length (padStart2 (showInt v)) = 2"
    and "parseInt (padStart2 (showInt v)) = v"
proof -
  have s: "showInt v = showNat (nat v)" using assms by (simp add: showInt_def)
  show "list_all isDigit (padStart2 (showInt v))"
    unfolding s padStart2_def using showNat_digits [of "nat v"]
    by (auto simp: isDigit_def list_all_iff)
  show "length (padStart2 (showInt v)) = 2"
  proof (cases "nat v < 10")
    case True
    then show ?thesis unfolding s padStart2_def by (simp add: showNat_small)
  next
    case False
    then have "length (showNat (nat v)) = 2" using assms by (intro length_showNat_2) simp_all
    then show ?thesis unfolding s padStart2_def by simp
  qed
  show "parseInt (padStart2 (showInt v)) = v"
  proof (cases "nat v < 10")
    case True
    then show ?thesis using assms unfolding s padStart2_def
      by (simp add: showNat_small parseInt_def)
  next
    case False
    then have "length (showNat (nat v)) = 2" using assms by (intro length_showNat_2) simp_all
    then show ?thesis using assms unfolding s padStart2_def by (simp add: parseInt_showNat)
  qed
qed


lemma year_props:
  assumes "1000 < y" and "y \<le> 9999"
  shows "list_all isDigit (showInt y)" and "length (showInt y) = 4"
    and "expandYear (parseInt (showInt y)) = y"
proof -
  have s: "showInt y = showNat (nat y)" using assms by (simp add: showInt_def)
  show "list_all isDigit (showInt y)" unfolding s by (rule showNat_digits)
  show "length (showInt y) = 4" unfolding s using assms by (intro length_showNat_4) simp_all
  show "expandYear (parseInt (showInt y)) = y"
    unfolding s parseInt_showNat using assms by (simp add: expandYear_def)
qed


lemma formatDay_shape:
  assumes "1000 < YearFromDay dn" and "YearFromDay dn \<le> 9999"
  shows "dmyShape (padStart2 (showInt (DateFromDay dn))) 45
           (padStart2 (showInt (MonthFromDay dn + 1))) 45 (showInt (YearFromDay dn))"
proof -
  have d: "0 \<le> DateFromDay dn" "DateFromDay dn \<le> 99" using DateFromDay_range [of dn] by simp_all
  have m: "0 \<le> MonthFromDay dn + 1" "MonthFromDay dn + 1 \<le> 99"
    using MonthFromDay_range [of dn] by simp_all
  show ?thesis
    unfolding dmyShape_def
    using pad2_props(1,2) [OF d] pad2_props(1,2) [OF m] year_props(1,2) [OF assms]
    by (simp add: isSep_def)
qed

lemma formatDay_eq:
  "formatDay dn = padStart2 (showInt (DateFromDay dn)) @ 45 #
     padStart2 (showInt (MonthFromDay dn + 1)) @ 45 # showInt (YearFromDay dn)"
  by (simp add: formatDay_def ddmmyyyy_def)

lemma formatDay_fixed:
  assumes "\<bar>LocalTZA h\<bar> \<le> msPerDay" and "1000 < YearFromDay dn" and "YearFromDay dn \<le> 9999"
  shows "normalizeValue h (Some (Str (formatDay dn))) = Some (Str (formatDay dn))"
proof -
  have d: "0 \<le> DateFromDay dn" "DateFromDay dn \<le> 99" using DateFromDay_range [of dn] by simp_all
  have m: "0 \<le> MonthFromDay dn + 1" "MonthFromDay dn + 1 \<le> 99"
    using MonthFromDay_range [of dn] by simp_all
  have "MakeDay (expandYear (parseInt (showInt (YearFromDay dn))))
          (parseInt (padStart2 (showInt (MonthFromDay dn + 1))) - 1)
          (parseInt (padStart2 (showInt (DateFromDay dn)))) = dn"
    unfolding pad2_props(3) [OF d] pad2_props(3) [OF m] year_props(3) [OF assms(2,3)]
    using MakeDay_fromDay [of dn] by simp
  then show ?thesis
    using dmy_cell [OF assms(1) formatDay_shape [OF assms(2,3)]] assms(2)
    unfolding formatDay_eq [symmetric] by (simp add: Let_def)
qed

lemma length_formatDay:
  assumes "1000 < YearFromDay dn"
  shows "length (formatDay dn) = 6 + length (showInt (YearFromDay dn))"
proof -
  have d: "0 \<le> DateFromDay dn" "DateFromDay dn \<le> 99" using DateFromDay_range [of dn] by simp_all
  have m: "0 \<le> MonthFromDay dn + 1" "MonthFromDay dn + 1 \<le> 99"
    using MonthFromDay_range [of dn] by simp_all
  show ?thesis unfolding formatDay_eq using pad2_props(2) [OF d] pad2_props(2) [OF m] by simp
qed

lemma formatDay_long:
  assumes "9999 < YearFromDay dn"
  shows "11 \<le> length (formatDay dn)"
proof -
  have "showInt (YearFromDay dn) = showNat (nat (YearFromDay dn))"
    using assms by (simp add: showInt_def)
  moreover have "5 \<le> length (showNat (nat (YearFromDay dn)))"
    using assms by (intro length_showNat_5) simp
  ultimately show ?thesis using length_formatDay [of dn] assms by simp
qed

lemma length_processAndResolve: "length (data (processAndResolve h dat)) = length dat"
  by (simp add: processAndResolve_def processDataForDates_def Let_def)

lemma formatDate_local: "formatDate h (Some t) = formatDay (Day (t + LocalTZA h))"
  by (simp add: formatDate_def formatDay_def ddmmyyyy_def getDate_def getMonth_def getFullYear_def)

lemma normalizeValue_Some:
  assumes "normalizeValue h ov = Some c"
  shows "\<exists>dn. 1000 < YearFromDay dn \<and> c = Str (formatDay dn)"
proof -
  obtain t where t: "parseCellDate h ov = Some (Some t)"
    using assms unfolding normalizeValue_def by (auto split: option.splits)
  have "1000 < getFullYear h t" and "c = Str (formatDate h (Some t))"
    using assms unfolding normalizeValue_def t by (auto split: if_splits)
  then show ?thesis
    unfolding formatDate_local getFullYear_def by blast
qed

lemma rollover_MakeDay:
  "MakeDay y m d = MakeDay (y + m div 12) (m mod 12) 1 + (d - 1)"
proof -
  have "m mod 12 div 12 = 0" by simp
  then show ?thesis unfolding MakeDay_def Let_def by simp
qed

lemma dmy_cell_row:
  assumes "\<bar>LocalTZA h\<bar> \<le> msPerDay"
    and "i < length dat" and "map_of (dat ! i) k = Some (Str (ds @ c1 # ms @ c2 # ys))"
    and "isDateHeader h k" and "dmyShape ds c1 ms c2 ys"
  shows "map_of (data (processAndResolve h dat) ! i) k =
     Some (Str (if 1000 < YearFromDay (MakeDay (expandYear (parseInt ys)) (parseInt ms - 1) (parseInt ds))
                then formatDay (MakeDay (expandYear (parseInt ys)) (parseInt ms - 1) (parseInt ds))
                else ds @ c1 # ms @ c2 # ys))"
  using processAndResolve_cell [OF assms(2,3,4)] dmy_cell [OF assms(1,5)]
  by (simp add: Let_def)

lemma formatDay_differs:
  assumes "dmyShape ds c1 ms c2 ys"
    and "\<not> validDate (expandYear (parseInt ys)) (parseInt ms) (parseInt ds)"
    and "1000 < YearFromDay dn"
  shows "formatDay dn \<noteq> ds @ c1 # ms @ c2 # ys"
proof
  assume eq: "formatDay dn = ds @ c1 # ms @ c2 # ys"
  have len: "length (ds @ c1 # ms @ c2 # ys) \<le> 10"
    using assms(1) by (simp add: dmyShape_def)
  have y: "YearFromDay dn \<le> 9999"
  proof (rule ccontr)
    assume "\<not> YearFromDay dn \<le> 9999"
    then have "11 \<le> length (formatDay dn)" by (intro formatDay_long) simp
    then show False using len eq by simp
  qed
  have d: "0 \<le> DateFromDay dn" "DateFromDay dn \<le> 99" using DateFromDay_range [of dn] by simp_all
  have m: "0 \<le> MonthFromDay dn + 1" "MonthFromDay dn + 1 \<le> 99"
    using MonthFromDay_range [of dn] by simp_all
  have "matchDMY (formatDay dn) = Some (padStart2 (showInt (DateFromDay dn)),
      padStart2 (showInt (MonthFromDay dn + 1)), showInt (YearFromDay dn))"
    unfolding formatDay_eq by (rule matchDMY_shape [OF formatDay_shape [OF assms(3) y]])
  moreover have "matchDMY (ds @ c1 # ms @ c2 # ys) = Some (ds, ms, ys)"
    by (rule matchDMY_shape [OF assms(1)])
  ultimately have e: "ds = padStart2 (showInt (DateFromDay dn))"
    "ms = padStart2 (showInt (MonthFromDay dn + 1))" "ys = showInt (YearFromDay dn)"
    using eq by simp_all
  have "validDate (expandYear (parseInt ys)) (parseInt ms) (parseInt ds)"
    unfolding e pad2_props(3) [OF d] pad2_props(3) [OF m] year_props(3) [OF assms(3) y]
    by (rule validDate_fromDay)
  then show False using assms(2) by simp
qed

lemma asc_05_06_23: "asc ''05'' @ 47 # asc ''06'' @ 47 # asc ''23'' = asc ''05/06/23''"
  by (simp add: asc_def)

lemma asc_31_02_2023: "asc ''31'' @ 47 # asc ''02'' @ 47 # asc ''2023'' = asc ''31/02/2023''"
  by (simp add: asc_def)

section \<open>Day, month and year strings\<close>

text \<open>
  Claim C5 says that every string of the day/month/year pattern in a date column is
  formatted. The guard on the year leaves a date of the year 1000 or before as it is:
  \<open>01/01/999\<close> stays.
\<close>

theorem dmy_small_year_counterexample:
  "dmyShape (asc ''01'') 47 (asc ''01'') 47 (asc ''999'')
   \<and> isDateHeader (exampleHost 0) (asc ''fecha'')
   \<and> map_of (data (processAndResolve (exampleHost 0)
                      [[(asc ''fecha'', Str (asc ''01'' @ 47 # asc ''01'' @ 47 # asc ''999''))]]) ! 0)
        (asc ''fecha'') = Some (Str (asc ''01/01/999''))"
  by code_simp

text \<open>
  Claim C5, as the code has it. On a host whose zone is within a day of UTC, a string of
  one or two digits, a separator, one or two digits, a separator and two to four digits in
  a date column is read as day, month and year, a year below 100 taken as 2000 plus it;
  \<open>new Date(year, month - 1, day)\<close> is the local calendar day \<open>MakeDay\<close> counts; when the
  year of that day is above 1000 the cell becomes its rendering, and otherwise it is left
  as it is. For a day and month that exist and a year above 1000 the rendering is the
  padded day, the padded month and the year; \<open>05/06/23\<close> gives \<open>05-06-2023\<close>.
\<close>

theorem dmy_string_date:
  assumes "\<bar>LocalTZA h\<bar> \<le> msPerDay"
    and "i < length dat" and "map_of (dat ! i) k = Some (Str (ds @ c1 # ms @ c2 # ys))"
    and "isDateHeader h k" and "dmyShape ds c1 ms c2 ys"
  shows "(let Y = expandYear (parseInt ys); M = parseInt ms; D = parseInt ds;
              dn = MakeDay Y (M - 1) D
          in map_of (data (processAndResolve h dat) ! i) k =
               Some (Str (if 1000 < YearFromDay dn then formatDay dn
                          else ds @ c1 # ms @ c2 # ys))
             \<and> (validDate Y M D \<and> 1000 < Y \<longrightarrow>
                  map_of (data (processAndResolve h dat) ! i) k = Some (Str (ddmmyyyy D M Y))))"
proof -
  define Y where "Y = expandYear (parseInt ys)"
  define M where "M = parseInt ms"
  define D where "D = parseInt ds"
  define dn where "dn = MakeDay Y (M - 1) D"
  have c: "map_of (data (processAndResolve h dat) ! i) k =
      Some (Str (if 1000 < YearFromDay dn then formatDay dn else ds @ c1 # ms @ c2 # ys))"
    unfolding dn_def Y_def M_def D_def by (rule dmy_cell_row [OF assms])
  have "map_of (data (processAndResolve h dat) ! i) k = Some (Str (ddmmyyyy D M Y))"
    if v: "validDate Y M D" and y: "1000 < Y"
  proof -
    have "YearFromDay dn = Y" "MonthFromDay dn + 1 = M" "DateFromDay dn = D"
      unfolding dn_def using fromDay_MakeDay [OF v] by simp_all
    then show ?thesis using c y by (simp add: formatDay_def)
  qed
  then show ?thesis
    using c unfolding Let_def Y_def [symmetric] M_def [symmetric] D_def [symmetric]
      dn_def [symmetric] by simp
qed

theorem dmy_string_date_witness:
  "\<bar>LocalTZA (exampleHost 0)\<bar> \<le> msPerDay
   \<and> (0::nat) < length [[(asc ''fecha'', Str (asc ''05/06/23''))]]
   \<and> isDateHeader (exampleHost 0) (asc ''fecha'')
   \<and> dmyShape (asc ''05'') 47 (asc ''06'') 47 (asc ''23'')
   \<and> validDate (expandYear (parseInt (asc ''23''))) (parseInt (asc ''06'')) (parseInt (asc ''05''))
   \<and> 1000 < expandYear (parseInt (asc ''23''))
   \<and> map_of (data (processAndResolve (exampleHost 0) [[(asc ''fecha'', Str (asc ''05/06/23''))]]) ! 0)
        (asc ''fecha'') = Some (Str (asc ''05-06-2023''))"
proof -
  have a: "\<bar>LocalTZA (exampleHost 0)\<bar> \<le> msPerDay"
    by (simp add: exampleHost_def msPerDay_def)
  have b: "(0::nat) < length [[(asc ''fecha'', Str (asc ''05/06/23''))]]" by simp
  have c: "map_of ([[(asc ''fecha'', Str (asc ''05/06/23''))]] ! 0) (asc ''fecha'')
      = Some (Str (asc ''05'' @ 47 # asc ''06'' @ 47 # asc ''23''))"
    by (simp add: asc_05_06_23)
  have d: "isDateHeader (exampleHost 0) (asc ''fecha'')" by (rule example_date_header)
  have e: "dmyShape (asc ''05'') 47 (asc ''06'') 47 (asc ''23'')" by code_simp
  have p: "expandYear (parseInt (asc ''23'')) = 2023" "parseInt (asc ''06'') = 6"
    "parseInt (asc ''05'') = 5"
    by (simp_all add: expandYear_def parseInt_def asc_def)
  have v: "validDate 2023 6 5" by (simp add: validDate_def daysInMonth_def monthLength_def)
  have f: "ddmmyyyy 5 6 2023 = asc ''05-06-2023''" by code_simp
  note t = dmy_string_date [OF a b c d e, unfolded Let_def p, THEN conjunct2]
  have r: "map_of (data (processAndResolve (exampleHost 0)
                           [[(asc ''fecha'', Str (asc ''05/06/23''))]]) ! 0)
        (asc ''fecha'') = Some (Str (asc ''05-06-2023''))"
    using t v f by simp
  show ?thesis using a b d e v r unfolding p by simp
qed

section \<open>Days and months out of range\<close>

text \<open>
  Claim C10 says that a string of the pattern whose year is above 1000 after expansion is
  always rolled over and reformatted. Day 0 of January 1001 is 31 December 1000, which the
  guard on the year rejects: \<open>00/01/1001\<close> is left as it is.
\<close>

theorem dmy_rollover_counterexample:
  "dmyShape (asc ''00'') 47 (asc ''01'') 47 (asc ''1001'')
   \<and> 1000 < expandYear (parseInt (asc ''1001''))
   \<and> isDateHeader (exampleHost 0) (asc ''fecha'')
   \<and> map_of (data (processAndResolve (exampleHost 0)
                      [[(asc ''fecha'', Str (asc ''00'' @ 47 # asc ''01'' @ 47 # asc ''1001''))]]) ! 0)
        (asc ''fecha'') = Some (Str (asc ''00/01/1001''))"
  by code_simp

text \<open>
  Claim C10, as the code has it. On a host whose zone is within a day of UTC, take a
  string of the pattern in a date column whose day or month is not one of the calendar.
  The day constructed is \<open>day - 1\<close> days after the first of the month reached by counting
  \<open>month - 1\<close> months from January of the year, twelve months to a year. When the year of
  that day is above 1000, the cell becomes the rendering of that day, which is a date of
  the calendar and differs from the string read; \<open>31/02/2023\<close> gives \<open>03-03-2023\<close>.
\<close>

theorem dmy_rollover:
  assumes "\<bar>LocalTZA h\<bar> \<le> msPerDay"
    and "i < length dat" and "map_of (dat ! i) k = Some (Str (ds @ c1 # ms @ c2 # ys))"
    and "isDateHeader h k" and "dmyShape ds c1 ms c2 ys"
    and "\<not> validDate (expandYear (parseInt ys)) (parseInt ms) (parseInt ds)"
    and "1000 < YearFromDay (MakeDay (expandYear (parseInt ys)) (parseInt ms - 1) (parseInt ds))"
  shows "(let Y = expandYear (parseInt ys); M = parseInt ms; D = parseInt ds;
              dn = MakeDay Y (M - 1) D
          in dn = MakeDay (Y + (M - 1) div 12) ((M - 1) mod 12) 1 + (D - 1)
             \<and> map_of (data (processAndResolve h dat) ! i) k = Some (Str (formatDay dn))
             \<and> formatDay dn \<noteq> ds @ c1 # ms @ c2 # ys
             \<and> validDate (YearFromDay dn) (MonthFromDay dn + 1) (DateFromDay dn))"
proof -
  define dn where "dn = MakeDay (expandYear (parseInt ys)) (parseInt ms - 1) (parseInt ds)"
  have y: "1000 < YearFromDay dn" using assms(7) by (simp add: dn_def)
  have a: "dn = MakeDay (expandYear (parseInt ys) + (parseInt ms - 1) div 12)
                  ((parseInt ms - 1) mod 12) 1 + (parseInt ds - 1)"
    unfolding dn_def by (rule rollover_MakeDay)
  have b: "map_of (data (processAndResolve h dat) ! i) k = Some (Str (formatDay dn))"
    using dmy_cell_row [OF assms(1-5)] y by (simp add: dn_def)
  have c: "formatDay dn \<noteq> ds @ c1 # ms @ c2 # ys"
    by (rule formatDay_differs [OF assms(5,6) y])
  have d: "validDate (YearFromDay dn) (MonthFromDay dn + 1) (DateFromDay dn)"
    by (rule validDate_fromDay)
  show ?thesis
    unfolding Let_def dn_def [symmetric] using a b c d by simp
qed

theorem dmy_rollover_witness:
  "\<bar>LocalTZA (exampleHost 0)\<bar> \<le> msPerDay
   \<and> (0::nat) < length [[(asc ''fecha'', Str (asc ''31/02/2023''))]]
   \<and> isDateHeader (exampleHost 0) (asc ''fecha'')
   \<and> dmyShape (asc ''31'') 47 (asc ''02'') 47 (asc ''2023'')
   \<and> \<not> validDate (expandYear (parseInt (asc ''2023''))) (parseInt (asc ''02'')) (parseInt (asc ''31''))
   \<and> 1000 < YearFromDay (MakeDay (expandYear (parseInt (asc ''2023''))) (parseInt (asc ''02'') - 1)
                 (parseInt (asc ''31'')))
   \<and> map_of (data (processAndResolve (exampleHost 0) [[(asc ''fecha'', Str (asc ''31/02/2023''))]]) ! 0)
        (asc ''fecha'') = Some (Str (asc ''03-03-2023''))"
proof -
  have a: "\<bar>LocalTZA (exampleHost 0)\<bar> \<le> msPerDay"
    by (simp add: exampleHost_def msPerDay_def)
  have b: "(0::nat) < length [[(asc ''fecha'', Str (asc ''31/02/2023''))]]" by simp
  have c: "map_of ([[(asc ''fecha'', Str (asc ''31/02/2023''))]] ! 0) (asc ''fecha'')
      = Some (Str (asc ''31'' @ 47 # asc ''02'' @ 47 # asc ''2023''))"
    by (simp add: asc_31_02_2023)
  have d: "isDateHeader (exampleHost 0) (asc ''fecha'')" by (rule example_date_header)
  have e: "dmyShape (asc ''31'') 47 (asc ''02'') 47 (asc ''2023'')" by code_simp
  have f: "\<not> validDate (expandYear (parseInt (asc ''2023''))) (parseInt (asc ''02''))
      (parseInt (asc ''31''))" by code_simp
  have g: "1000 < YearFromDay (MakeDay (expandYear (parseInt (asc ''2023'')))
      (parseInt (asc ''02'') - 1) (parseInt (asc ''31'')))" by code_simp
  have r: "formatDay (MakeDay (expandYear (parseInt (asc ''2023''))) (parseInt (asc ''02'') - 1)
      (parseInt (asc ''31''))) = asc ''03-03-2023''" by code_simp
  note t = dmy_rollover [OF a b c d e f g, unfolded Let_def, THEN conjunct2, THEN conjunct1]
  show ?thesis using a b d e f g t unfolding r by simp
qed

section \<open>Formatting again\<close>

lemma showInt_10000: "showInt 10000 = asc ''10000''"
proof -
  have a: "showNat 1 = [49]" by (simp add: showNat_small)
  have b: "showNat 10 = [49, 48]" using showNat_step [of 10] a by simp
  have c: "showNat 100 = [49, 48, 48]" using showNat_step [of 100] b by simp
  have d: "showNat 1000 = [49, 48, 48, 48]" using showNat_step [of 1000] c by simp
  have e: "showNat 10000 = [49, 48, 48, 48, 48]" using showNat_step [of 10000] d by simp
  show ?thesis using e by (simp add: showInt_def asc_def)
qed

lemma formatDay_2932898: "formatDay 2932898 = asc ''02-01-10000''"
proof -
  have y: "YearFromDay 2932898 = 10000" by code_simp
  have m: "MonthFromDay 2932898 = 0" by code_simp
  have d: "DateFromDay 2932898 = 2" by code_simp
  have p: "padStart2 (showInt 2) = asc ''02''" "padStart2 (showInt 1) = asc ''01''" by code_simp+
  show ?thesis
    by (simp add: formatDay_def ddmmyyyy_def y m d p showInt_10000) (simp add: asc_def)
qed

lemma formatDay_2932928: "formatDay 2932928 = asc ''01-02-10000''"
proof -
  have y: "YearFromDay 2932928 = 10000" by code_simp
  have m: "MonthFromDay 2932928 = 1" by code_simp
  have d: "DateFromDay 2932928 = 1" by code_simp
  have p: "padStart2 (showInt 2) = asc ''02''" "padStart2 (showInt 1) = asc ''01''" by code_simp+
  show ?thesis
    by (simp add: formatDay_def ddmmyyyy_def y m d p showInt_10000) (simp add: asc_def)
qed

lemma MakeDay_feb_10000: "MakeDay 10000 1 1 = 2932928"
  by code_simp

lemma monthFirstHost_zone: "LocalTZA monthFirstHost = 0"
  by (simp add: monthFirstHost_def exampleHost_def)

lemma monthFirstHost_parse:
  "dateParse monthFirstHost (asc ''02-01-10000'') = Some (MakeDay 10000 1 1 * msPerDay)"
  by (simp add: monthFirstHost_def exampleHost_def)

lemma no_match_long_year: "matchDMY (asc ''02-01-10000'') = None"
  by code_simp

text \<open>
  Claim C9 says that the normalizer gives its own output back. An output with a year of
  five digits does not match the pattern, whose year has four digits at most, and goes to
  the free-form parser of the host: the serial number 2958467 is formatted as
  \<open>02-01-10000\<close>, and on a host that reads that string month first the normalizer turns
  it into \<open>01-02-10000\<close>.
\<close>

theorem format_long_year_counterexample:
  "normalizeValue monthFirstHost (Some (Num 2958467)) = Some (Str (asc ''02-01-10000''))
   \<and> normalizeValue monthFirstHost (Some (Str (asc ''02-01-10000'')))
       = Some (Str (asc ''01-02-10000''))"
proof -
  have z: "0 \<le> LocalTZA monthFirstHost" "LocalTZA monthFirstHost < msPerDay"
    by (simp_all add: monthFirstHost_zone msPerDay_def)
  have a: "normalizeValue monthFirstHost (Some (Num 2958467)) = Some (Str (asc ''02-01-10000''))"
    using serial_cell_formatDay [OF z, of 2958467] by (simp add: formatDay_2932898)
  have p: "parseCellDate monthFirstHost (Some (Str (asc ''02-01-10000'')))
      = Some (Some (2932928 * msPerDay))"
    by (simp add: parseCellDate_def no_match_long_year monthFirstHost_parse Let_def
        MakeDay_feb_10000)
  have d: "Day (2932928 * msPerDay + LocalTZA monthFirstHost) = 2932928"
    by (simp add: monthFirstHost_zone Day_mult)
  have y: "YearFromDay 2932928 = 10000" by code_simp
  have b: "normalizeValue monthFirstHost (Some (Str (asc ''02-01-10000'')))
       = Some (Str (asc ''01-02-10000''))"
    unfolding normalizeValue_def p
    by (simp add: getFullYear_def formatDate_local d y formatDay_2932928)
  show ?thesis using a b by simp
qed

text \<open>
  Claim C9, as the code has it. On a host whose zone is within a day of UTC, let the
  normalizer turn a cell of a date column into the string \<open>s\<close>, and let \<open>s\<close> have the ten
  characters of \<open>DD-MM-YYYY\<close>, a year of four digits. Then the processed cell is \<open>s\<close>, the
  normalizer run on \<open>s\<close> assigns \<open>s\<close> again, and processing the processed rows once more
  leaves \<open>s\<close> in the cell.
\<close>

theorem format_idempotent:
  assumes "\<bar>LocalTZA h\<bar> \<le> msPerDay"
    and "i < length dat" and "map_of (dat ! i) k = Some v" and "isDateHeader h k"
    and "normalizeValue h (Some v) = Some (Str s)" and "length s = 10"
  shows "map_of (data (processAndResolve h dat) ! i) k = Some (Str s)
         \<and> normalizeValue h (Some (Str s)) = Some (Str s)
         \<and> map_of (data (processAndResolve h (data (processAndResolve h dat))) ! i) k
             = Some (Str s)"
proof -
  obtain dn where dn: "1000 < YearFromDay dn" "s = formatDay dn"
    using normalizeValue_Some [OF assms(5)] by auto
  have y: "YearFromDay dn \<le> 9999"
  proof (rule ccontr)
    assume "\<not> YearFromDay dn \<le> 9999"
    then have "11 \<le> length (formatDay dn)" by (intro formatDay_long) simp
    then show False using assms(6) dn(2) by simp
  qed
  have a: "map_of (data (processAndResolve h dat) ! i) k = Some (Str s)"
    using processAndResolve_cell [OF assms(2,3,4)] assms(5) by simp
  have b: "normalizeValue h (Some (Str s)) = Some (Str s)"
    unfolding dn(2) by (rule formatDay_fixed [OF assms(1) dn(1) y])
  have i2: "i < length (data (processAndResolve h dat))"
    using assms(2) by (simp add: length_processAndResolve)
  have c: "map_of (data (processAndResolve h (data (processAndResolve h dat))) ! i) k
      = Some (Str s)"
    using processAndResolve_cell [OF i2 a assms(4)] b by simp
  show ?thesis using a b c by simp
qed

theorem format_idempotent_witness:
  "\<bar>LocalTZA (exampleHost 0)\<bar> \<le> msPerDay
   \<and> (0::nat) < length [[(asc ''fecha'', Num 44927)]]
   \<and> map_of ([[(asc ''fecha'', Num 44927)]] ! 0) (asc ''fecha'') = Some (Num 44927)
   \<and> isDateHeader (exampleHost 0) (asc ''fecha'')
   \<and> normalizeValue (exampleHost 0) (Some (Num 44927)) = Some (Str (asc ''01-01-2023''))
   \<and> length (asc ''01-01-2023'') = 10
   \<and> normalizeValue (exampleHost 0) (Some (Str (asc ''01-01-2023''))) = Some (Str (asc ''01-01-2023''))
   \<and> map_of (data (processAndResolve (exampleHost 0)
                      (data (processAndResolve (exampleHost 0) [[(asc ''fecha'', Num 44927)]]))) ! 0)
        (asc ''fecha'') = Some (Str (asc ''01-01-2023''))"
proof -
  have a: "\<bar>LocalTZA (exampleHost 0)\<bar> \<le> msPerDay"
    by (simp add: exampleHost_def msPerDay_def)
  have b: "(0::nat) < length [[(asc ''fecha'', Num 44927)]]" by simp
  have c: "map_of ([[(asc ''fecha'', Num 44927)]] ! 0) (asc ''fecha'') = Some (Num 44927)"
    by simp
  have d: "isDateHeader (exampleHost 0) (asc ''fecha'')" by (rule example_date_header)
  have t: "0 \<le> LocalTZA (exampleHost 0)" "LocalTZA (exampleHost 0) < msPerDay"
    by (simp_all add: exampleHost_def msPerDay_def)
  have e: "normalizeValue (exampleHost 0) (Some (Num 44927)) = Some (Str (asc ''01-01-2023''))"
    using serial_cell_formatDay [OF t, of 44927] by (simp add: formatDay_19358)
  have f: "length (asc ''01-01-2023'') = 10" by (simp add: asc_def)
  show ?thesis
    using format_idempotent [OF a b c d e f] a b c d e f by simp
qed

lemma fromSet_snoc: "fromSet (xs @ [x]) = setAdd x (fromSet xs)"
  by (simp add: fromSet_def)

lemma firstPos_in_append: "a \<in> set xs \<Longrightarrow> firstPos a (xs @ ys) = firstPos a xs"
  by (simp add: firstPos_def takeWhile_append1)

lemma firstPos_less: "a \<in> set xs \<Longrightarrow> firstPos a xs < length xs"
  unfolding firstPos_def by (induction xs) auto

lemma firstPos_new: "a \<notin> set xs \<Longrightarrow> firstPos a (xs @ [a]) = length xs"
  unfolding firstPos_def by (induction xs) auto

lemma fromSet_first_seen:
  "sorted_wrt (\<lambda>a b. firstPos a xs < firstPos b xs) (fromSet xs)"
proof (induction xs rule: rev_induct)
  case Nil
  then show ?case by (simp add: fromSet_def)
next
  case (snoc x xs)
  have keep: "sorted_wrt (\<lambda>a b. firstPos a (xs @ [x]) < firstPos b (xs @ [x])) (fromSet xs)"
  proof (rule sorted_wrt_mono_rel [OF _ snoc.IH])
    fix a b
    assume "a \<in> set (fromSet xs)" and "b \<in> set (fromSet xs)"
      and "firstPos a xs < firstPos b xs"
    then show "firstPos a (xs @ [x]) < firstPos b (xs @ [x])"
      by (simp add: set_fromSet firstPos_in_append)
  qed
  show ?case
  proof (cases "x \<in> set xs")
    case True
    then show ?thesis using keep by (simp add: fromSet_snoc setAdd_def set_fromSet)
  next
    case False
    have "\<forall>a \<in> set (fromSet xs). firstPos a (xs @ [x]) < firstPos x (xs @ [x])"
      using False by (simp add: set_fromSet firstPos_in_append firstPos_less firstPos_new)
    then show ?thesis
      using keep False
      by (simp add: fromSet_snoc setAdd_def set_fromSet sorted_wrt_append)
  qed
qed

lemma headers_processAndResolve: "headers (processAndResolve h dat) = fromSet (keyScan dat)"
  by (simp add: processAndResolve_def keyScan_def fromSet_def Let_def)

section \<open>The header list\<close>

text \<open>
  Claim C7. The header list that \<open>processAndResolve\<close> returns holds exactly the keys of
  the rows, each once, in the order in which the scan of the rows first meets them; the
  rows \<open>{a: 1}\<close> and \<open>{b: 2}\<close> give the headers \<open>a\<close>, \<open>b\<close>.
\<close>

theorem header_union:
  "set (headers (processAndResolve h dat)) = (\<Union>r \<in> set dat. fst ` set r)
   \<and> distinct (headers (processAndResolve h dat))
   \<and> sorted_wrt (\<lambda>a b. firstPos a (keyScan dat) < firstPos b (keyScan dat))
         (headers (processAndResolve h dat))
   \<and> headers (processAndResolve h [[(asc ''a'', Num 1)], [(asc ''b'', Num 2)]])
       = [asc ''a'', asc ''b'']"
proof -
  have "set (keyScan dat) = (\<Union>r \<in> set dat. fst ` set r)"
    by (auto simp: keyScan_def)
  moreover have "headers (processAndResolve h [[(asc ''a'', Num 1)], [(asc ''b'', Num 2)]])
       = [asc ''a'', asc ''b'']"
    by (simp add: headers_processAndResolve keyScan_def fromSet_def setAdd_def asc_def)
  ultimately show ?thesis
    by (simp add: headers_processAndResolve set_fromSet distinct_fromSet fromSet_first_seen)
qed

section \<open>Rejections and the empty result\<close>

text \<open>
  Claim C8. \<open>parseFile\<close> rejects a file whose extension is none of \<open>csv\<close>, \<open>json\<close>, \<open>xlsx\<close>,
  \<open>xls\<close> with a message that names the extension, and rejects a JSON text whose root is
  not an array; a rejection is not a resolution. Every source that comes to zero rows
  resolves to no headers and no rows: a JSON text that parses to the empty array, a CSV
  file parsed without errors whose data is missing or whose rows are all dropped as empty,
  and a spreadsheet whose first sheet has no rows.
\<close>

theorem parseFile_rejects_and_empty:
  "(extensionOf h f \<notin> {asc ''csv'', asc ''json'', asc ''xlsx'', asc ''xls''} \<longrightarrow>
      parseFile h L f = Inl (asc ''Tipo de archivo no soportado: .'' @ extensionOf h f)
      \<and> (\<forall>res. parseFile h L f \<noteq> Inr res))
   \<and> (extensionOf h f = asc ''json'' \<and> readAsText L f = ReadLoaded (Some txt) \<and> txt \<noteq> []
        \<and> jsonParse L txt = Inr JsonOther \<longrightarrow>
      parseFile h L f = Inl (asc ''El archivo JSON debe contener un array de objetos.'')
      \<and> (\<forall>res. parseFile h L f \<noteq> Inr res))
   \<and> (extensionOf h f = asc ''json'' \<and> readAsText L f = ReadLoaded (Some txt) \<and> txt \<noteq> []
        \<and> jsonParse L txt = Inr (JsonArray []) \<longrightarrow>
      parseFile h L f = Inr \<lparr>headers = [], data = []\<rparr>)
   \<and> (extensionOf h f = asc ''csv'' \<and> papaParse L f = PapaComplete [] None \<longrightarrow>
      parseFile h L f = Inr \<lparr>headers = [], data = []\<rparr>)
   \<and> (extensionOf h f = asc ''csv'' \<and> papaParse L f = PapaComplete [] (Some rs)
        \<and> filter csvKeep rs = [] \<longrightarrow>
      parseFile h L f = Inr \<lparr>headers = [], data = []\<rparr>)
   \<and> ((extensionOf h f = asc ''xlsx'' \<or> extensionOf h f = asc ''xls'')
        \<and> readAsArrayBuffer L f = ReadLoaded (Some buf)
        \<and> xlsxRead L buf = Inr ((sheetName, Inr []) # sheets) \<and> sheetName \<noteq> [] \<longrightarrow>
      parseFile h L f = Inr \<lparr>headers = [], data = []\<rparr>)
   \<and> processAndResolve h [] = \<lparr>headers = [], data = []\<rparr>"
proof -
  have ne: "asc ''json'' \<noteq> asc ''csv''" "asc ''xlsx'' \<noteq> asc ''csv''" "asc ''xls'' \<noteq> asc ''csv''"
    "asc ''xlsx'' \<noteq> asc ''json''" "asc ''xls'' \<noteq> asc ''json''"
    by (simp_all add: asc_def)
  have d: "processAndResolve h [] = \<lparr>headers = [], data = []\<rparr>"
    by (simp add: processAndResolve_def)
  have a: "extensionOf h f \<notin> {asc ''csv'', asc ''json'', asc ''xlsx'', asc ''xls''} \<longrightarrow>
      parseFile h L f = Inl (asc ''Tipo de archivo no soportado: .'' @ extensionOf h f)"
    by (simp add: parseFile_def extensionOf_def Let_def)
  have b: "extensionOf h f = asc ''json'' \<and> readAsText L f = ReadLoaded (Some txt) \<and> txt \<noteq> []
        \<and> jsonParse L txt = Inr JsonOther \<longrightarrow>
      parseFile h L f = Inl (asc ''El archivo JSON debe contener un array de objetos.'')"
    using ne by (simp add: parseFile_def extensionOf_def Let_def)
  have c: "extensionOf h f = asc ''json'' \<and> readAsText L f = ReadLoaded (Some txt) \<and> txt \<noteq> []
        \<and> jsonParse L txt = Inr (JsonArray []) \<longrightarrow>
      parseFile h L f = Inr \<lparr>headers = [], data = []\<rparr>"
    using ne by (simp add: parseFile_def extensionOf_def Let_def d)
  have e: "extensionOf h f = asc ''csv'' \<and> papaParse L f = PapaComplete [] None \<longrightarrow>
      parseFile h L f = Inr \<lparr>headers = [], data = []\<rparr>"
    by (simp add: parseFile_def extensionOf_def Let_def)
  have g: "extensionOf h f = asc ''csv'' \<and> papaParse L f = PapaComplete [] (Some rs)
        \<and> filter csvKeep rs = [] \<longrightarrow>
      parseFile h L f = Inr \<lparr>headers = [], data = []\<rparr>"
    by (simp add: parseFile_def extensionOf_def Let_def d)
  have x: "(extensionOf h f = asc ''xlsx'' \<or> extensionOf h f = asc ''xls'')
        \<and> readAsArrayBuffer L f = ReadLoaded (Some buf)
        \<and> xlsxRead L buf = Inr ((sheetName, Inr []) # sheets) \<and> sheetName \<noteq> [] \<longrightarrow>
      parseFile h L f = Inr \<lparr>headers = [], data = []\<rparr>"
    using ne by (auto simp: parseFile_def extensionOf_def Let_def d)
  show ?thesis using a b c d e g x by simp
qed

theorem parseFile_rejects_and_empty_witness:
  "extensionOf (exampleHost 0) \<lparr>fname = asc ''notes.txt'', content = []\<rparr>
      \<notin> {asc ''csv'', asc ''json'', asc ''xlsx'', asc ''xls''}
   \<and> parseFile (exampleHost 0) exampleLibs \<lparr>fname = asc ''notes.txt'', content = []\<rparr>
       = Inl (asc ''Tipo de archivo no soportado: .txt'')
   \<and> extensionOf (exampleHost 0) \<lparr>fname = asc ''data.JSON'', content = asc ''{}''\<rparr> = asc ''json''
   \<and> readAsText exampleLibs \<lparr>fname = asc ''data.JSON'', content = asc ''{}''\<rparr>
       = ReadLoaded (Some (asc ''{}'')) \<and> asc ''{}'' \<noteq> []
   \<and> jsonParse exampleLibs (asc ''{}'') = Inr JsonOther
   \<and> parseFile (exampleHost 0) exampleLibs \<lparr>fname = asc ''data.JSON'', content = asc ''{}''\<rparr>
       = Inl (asc ''El archivo JSON debe contener un array de objetos.'')
   \<and> extensionOf (exampleHost 0) \<lparr>fname = asc ''data.json'', content = asc ''[]''\<rparr> = asc ''json''
   \<and> readAsText exampleLibs \<lparr>fname = asc ''data.json'', content = asc ''[]''\<rparr>
       = ReadLoaded (Some (asc ''[]'')) \<and> asc ''[]'' \<noteq> []
   \<and> jsonParse exampleLibs (asc ''[]'') = Inr (JsonArray [])
   \<and> parseFile (exampleHost 0) exampleLibs \<lparr>fname = asc ''data.json'', content = asc ''[]''\<rparr>
       = Inr \<lparr>headers = [], data = []\<rparr>
   \<and> extensionOf (exampleHost 0) \<lparr>fname = asc ''empty.csv'', content = []\<rparr> = asc ''csv''
   \<and> papaParse exampleLibs \<lparr>fname = asc ''empty.csv'', content = []\<rparr> = PapaComplete [] None
   \<and> parseFile (exampleHost 0) exampleLibs \<lparr>fname = asc ''empty.csv'', content = []\<rparr>
       = Inr \<lparr>headers = [], data = []\<rparr>
   \<and> extensionOf (exampleHost 0) \<lparr>fname = asc ''blank.csv'', content = asc ''a''\<rparr> = asc ''csv''
   \<and> papaParse exampleLibs \<lparr>fname = asc ''blank.csv'', content = asc ''a''\<rparr>
       = PapaComplete [] (Some [[(asc ''a'', Str [])]])
   \<and> filter csvKeep [[(asc ''a'', Str [])]] = []
   \<and> parseFile (exampleHost 0) exampleLibs \<lparr>fname = asc ''blank.csv'', content = asc ''a''\<rparr>
       = Inr \<lparr>headers = [], data = []\<rparr>
   \<and> extensionOf (exampleHost 0) \<lparr>fname = asc ''book.xlsx'', content = [80, 75]\<rparr> = asc ''xlsx''
   \<and> readAsArrayBuffer exampleLibs \<lparr>fname = asc ''book.xlsx'', content = [80, 75]\<rparr>
       = ReadLoaded (Some [80, 75])
   \<and> xlsxRead exampleLibs [80, 75] = Inr ((asc ''Hoja1'', Inr []) # []) \<and> asc ''Hoja1'' \<noteq> []
   \<and> parseFile (exampleHost 0) exampleLibs \<lparr>fname = asc ''book.xlsx'', content = [80, 75]\<rparr>
       = Inr \<lparr>headers = [], data = []\<rparr>
   \<and> extensionOf (exampleHost 0) \<lparr>fname = asc ''old.XLS'', content = [208, 207]\<rparr> = asc ''xls''
   \<and> readAsArrayBuffer exampleLibs \<lparr>fname = asc ''old.XLS'', content = [208, 207]\<rparr>
       = ReadLoaded (Some [208, 207])
   \<and> xlsxRead exampleLibs [208, 207] = Inr ((asc ''Hoja1'', Inr []) # [])
   \<and> parseFile (exampleHost 0) exampleLibs \<lparr>fname = asc ''old.XLS'', content = [208, 207]\<rparr>
       = Inr \<lparr>headers = [], data = []\<rparr>"
proof -
  define f1 where "f1 = \<lparr>fname = asc ''notes.txt'', content = []\<rparr>"
  define f2 where "f2 = \<lparr>fname = asc ''data.JSON'', content = asc ''{}''\<rparr>"
  define f3 where "f3 = \<lparr>fname = asc ''data.json'', content = asc ''[]''\<rparr>"
  define f4 where "f4 = \<lparr>fname = asc ''empty.csv'', content = []\<rparr>"
  define f5 where "f5 = \<lparr>fname = asc ''blank.csv'', content = asc ''a''\<rparr>"
  define f6 where "f6 = \<lparr>fname = asc ''book.xlsx'', content = [80, 75]\<rparr>"
  define f7 where "f7 = \<lparr>fname = asc ''old.XLS'', content = [208, 207]\<rparr>"
  have e1: "extensionOf (exampleHost 0) f1 = asc ''txt''" unfolding f1_def by code_simp
  have n1: "asc ''txt'' \<notin> {asc ''csv'', asc ''json'', asc ''xlsx'', asc ''xls''}"
    by (simp add: asc_def)
  have e2: "extensionOf (exampleHost 0) f2 = asc ''json''" unfolding f2_def by code_simp
  have e3: "extensionOf (exampleHost 0) f3 = asc ''json''" unfolding f3_def by code_simp
  have e4: "extensionOf (exampleHost 0) f4 = asc ''csv''" unfolding f4_def by code_simp
  have e5: "extensionOf (exampleHost 0) f5 = asc ''csv''" unfolding f5_def by code_simp
  have e6: "extensionOf (exampleHost 0) f6 = asc ''xlsx''" unfolding f6_def by code_simp
  have e7: "extensionOf (exampleHost 0) f7 = asc ''xls''" unfolding f7_def by code_simp
  have r2: "readAsText exampleLibs f2 = ReadLoaded (Some (asc ''{}''))"
    by (simp add: exampleLibs_def f2_def)
  have r3: "readAsText exampleLibs f3 = ReadLoaded (Some (asc ''[]''))"
    by (simp add: exampleLibs_def f3_def)
  have t2: "asc ''{}'' \<noteq> []" and t3: "asc ''[]'' \<noteq> []" by (simp_all add: asc_def)
  have j2: "jsonParse exampleLibs (asc ''{}'') = Inr JsonOther"
    by (simp add: exampleLibs_def asc_def)
  have j3: "jsonParse exampleLibs (asc ''[]'') = Inr (JsonArray [])"
    by (simp add: exampleLibs_def)
  have c4: "papaParse exampleLibs f4 = PapaComplete [] None"
    by (simp add: exampleLibs_def f4_def)
  have c5: "papaParse exampleLibs f5 = PapaComplete [] (Some [[(asc ''a'', Str [])]])"
    by (simp add: exampleLibs_def f5_def asc_def)
  have k5: "filter csvKeep [[(asc ''a'', Str [])]] = []" by (simp add: csvKeep_def)
  have b6: "readAsArrayBuffer exampleLibs f6 = ReadLoaded (Some [80, 75])"
    by (simp add: exampleLibs_def f6_def)
  have b7: "readAsArrayBuffer exampleLibs f7 = ReadLoaded (Some [208, 207])"
    by (simp add: exampleLibs_def f7_def)
  have x6: "xlsxRead exampleLibs [80, 75] = Inr ((asc ''Hoja1'', Inr []) # [])"
    by (simp add: exampleLibs_def)
  have x7: "xlsxRead exampleLibs [208, 207] = Inr ((asc ''Hoja1'', Inr []) # [])"
    by (simp add: exampleLibs_def)
  have sn: "asc ''Hoja1'' \<noteq> []" by (simp add: asc_def)
  have m: "asc ''Tipo de archivo no soportado: .'' @ asc ''txt''
      = asc ''Tipo de archivo no soportado: .txt''" by (simp add: asc_def)
  have p1: "parseFile (exampleHost 0) exampleLibs f1 = Inl (asc ''Tipo de archivo no soportado: .txt'')"
    using parseFile_rejects_and_empty [of "exampleHost 0" f1 exampleLibs "[]" "[]" "[]" "[]" "[]"]
      e1 n1 m by simp
  have p2: "parseFile (exampleHost 0) exampleLibs f2
      = Inl (asc ''El archivo JSON debe contener un array de objetos.'')"
    using parseFile_rejects_and_empty [of "exampleHost 0" f2 exampleLibs "asc ''{}''" "[]" "[]" "[]" "[]"]
      e2 r2 t2 j2 by simp
  have p3: "parseFile (exampleHost 0) exampleLibs f3 = Inr \<lparr>headers = [], data = []\<rparr>"
    using parseFile_rejects_and_empty [of "exampleHost 0" f3 exampleLibs "asc ''[]''" "[]" "[]" "[]" "[]"]
      e3 r3 t3 j3 by simp
  have p4: "parseFile (exampleHost 0) exampleLibs f4 = Inr \<lparr>headers = [], data = []\<rparr>"
    using parseFile_rejects_and_empty [of "exampleHost 0" f4 exampleLibs "[]" "[]" "[]" "[]" "[]"]
      e4 c4 by simp
  have p5: "parseFile (exampleHost 0) exampleLibs f5 = Inr \<lparr>headers = [], data = []\<rparr>"
    using parseFile_rejects_and_empty [of "exampleHost 0" f5 exampleLibs "[]"
        "[[(asc ''a'', Str [])]]" "[]" "[]" "[]"] e5 c5 k5 by simp
  have p6: "parseFile (exampleHost 0) exampleLibs f6 = Inr \<lparr>headers = [], data = []\<rparr>"
    using parseFile_rejects_and_empty [of "exampleHost 0" f6 exampleLibs "[]" "[]"
        "[80, 75]" "asc ''Hoja1''" "[]"] e6 b6 x6 sn by simp
  have p7: "parseFile (exampleHost 0) exampleLibs f7 = Inr \<lparr>headers = [], data = []\<rparr>"
    using parseFile_rejects_and_empty [of "exampleHost 0" f7 exampleLibs "[]" "[]"
        "[208, 207]" "asc ''Hoja1''" "[]"] e7 b7 x7 sn by simp
  show ?thesis
    using e1 n1 p1 e2 r2 t2 j2 p2 e3 r3 t3 j3 p3 e4 c4 p4 e5 c5 k5 p5 e6 b6 x6 sn p6 e7 b7 x7 p7
    unfolding f1_def f2_def f3_def f4_def f5_def f6_def f7_def by simp
qed

lemma isInfix_empty: "p \<noteq> [] \<Longrightarrow> \<not> isInfix p []"
  by (auto simp: isInfix_def)

lemma isIdKey_nonempty: "isIdKey k \<Longrightarrow> k \<noteq> []"
  by (auto simp: isIdKey_def asciiLower_def isInfix_empty asc_def)

lemma find_isIdKey_nonempty: "find isIdKey ks = Some k \<Longrightarrow> k \<noteq> []"
  by (metis find_Some_iff isIdKey_nonempty)

lemma sort_empty_iff: "(sort xs = []) = (xs = [])"
  by (metis length_sort length_0_conv)

lemma anyName_of_name: "isSurnameKey k \<or> isNameKey k \<Longrightarrow> isAnyNameKey k"
  by (auto simp: isSurnameKey_def isNameKey_def isAnyNameKey_def)

section \<open>The identifier of a candidate\<close>

text \<open>
  Claim C3 says that the first rule with a non-empty result wins and that the sentinel is
  returned whenever every candidate value is empty. A row whose only column is an empty
  \<open>Nombre\<close> gets the empty identifier, not the sentinel; and with an empty \<open>Apellidos\<close>
  and a \<open>DNI\<close> of 123 the first rule still wins, with the empty identifier.
\<close>

theorem identifier_empty_counterexample:
  "getCandidateIdentifier (exampleHost 0) [(asc ''Nombre'', Str [])] = []
   \<and> unknownCandidate \<noteq> []
   \<and> getCandidateIdentifier (exampleHost 0)
        [(asc ''Apellidos'', Str []), (asc ''DNI'', Str (asc ''123''))] = []
   \<and> toStr (exampleHost 0) (Some (Str (asc ''123''))) \<noteq> []"
  by code_simp

text \<open>
  Claim C3, as the code has it. \<open>getCandidateIdentifier\<close> returns a string for every row,
  and the rule is chosen by the columns the row has, not by what they hold. With a
  surname or given-name column it is the trimmed, space-joined text of the surname
  columns sorted by name followed by the other given-name columns sorted by name;
  otherwise, with a column of the broad name pattern, the trimmed, space-joined text of
  those columns sorted by name; otherwise, with an identifier column, \<open>String\<close> of the
  value of the first such column; otherwise \<open>String\<close> of the value of the first column,
  and the sentinel when the row has no column or its first value is \<open>null\<close>.
\<close>

theorem identifier_resolution:
  "(let keys = map fst r in
      (\<exists>s. getCandidateIdentifier h r = s)
      \<and> ((\<exists>k \<in> set keys. isSurnameKey k \<or> isNameKey k) \<longrightarrow>
           getCandidateIdentifier h r =
             trim (joinWith [32]
                     (map (columnText h r) (sort (filter isSurnameKey keys))
                      @ map (columnText h r)
                          (sort (filter (\<lambda>k. isNameKey k \<and> \<not> isSurnameKey k) keys)))))
      \<and> (\<not> (\<exists>k \<in> set keys. isSurnameKey k \<or> isNameKey k)
           \<and> (\<exists>k \<in> set keys. isAnyNameKey k) \<longrightarrow>
           getCandidateIdentifier h r =
             trim (joinWith [32] (map (columnText h r) (sort (filter isAnyNameKey keys)))))
      \<and> (\<not> (\<exists>k \<in> set keys. isAnyNameKey k) \<longrightarrow>
           (\<forall>k. find isIdKey keys = Some k \<longrightarrow>
                getCandidateIdentifier h r = toStr h (map_of r k)))
      \<and> (\<not> (\<exists>k \<in> set keys. isAnyNameKey k) \<and> \<not> (\<exists>k \<in> set keys. isIdKey k) \<longrightarrow>
           getCandidateIdentifier h r =
             (case r of
                [] \<Rightarrow> unknownCandidate
              | (k, v) # _ \<Rightarrow> if v = Null then unknownCandidate else toStr h (Some v))))"
proof -
  define keys where "keys = map fst r"
  define sk where "sk = sort (filter isSurnameKey keys)"
  define nk where "nk = sort (filter (\<lambda>k. isNameKey k \<and> \<not> isSurnameKey k) keys)"
  define ak where "ak = sort (filter isAnyNameKey keys)"
  have ct: "(\<lambda>k. toStrOrEmpty h (map_of r k)) = columnText h r"
    by (simp add: columnText_def fun_eq_iff)
  have parts: "(map (columnText h r) sk @ map (columnText h r) nk \<noteq> [])
      = (\<exists>k \<in> set keys. isSurnameKey k \<or> isNameKey k)"
    unfolding sk_def nk_def by (auto simp: sort_empty_iff filter_empty_conv)
  have anyk: "(ak \<noteq> []) = (\<exists>k \<in> set keys. isAnyNameKey k)"
    unfolding ak_def by (auto simp: sort_empty_iff filter_empty_conv)
  have g: "getCandidateIdentifier h r =
      (if map (columnText h r) sk @ map (columnText h r) nk \<noteq> []
       then trim (joinWith [32] (map (columnText h r) sk @ map (columnText h r) nk))
       else if ak \<noteq> [] then trim (joinWith [32] (map (columnText h r) ak))
       else (case find isIdKey keys of
               Some dniKey \<Rightarrow> if dniKey \<noteq> [] then toStr h (map_of r dniKey)
                               else firstValueOrUnknown h r
             | None \<Rightarrow> firstValueOrUnknown h r))"
    unfolding getCandidateIdentifier_def Let_def ct keys_def [symmetric] sk_def [symmetric]
      nk_def [symmetric] ak_def [symmetric] by (rule refl)
  have a: "(\<exists>k \<in> set keys. isSurnameKey k \<or> isNameKey k) \<longrightarrow>
      getCandidateIdentifier h r =
        trim (joinWith [32] (map (columnText h r) sk @ map (columnText h r) nk))"
    unfolding g parts by simp
  have b: "\<not> (\<exists>k \<in> set keys. isSurnameKey k \<or> isNameKey k)
      \<and> (\<exists>k \<in> set keys. isAnyNameKey k) \<longrightarrow>
      getCandidateIdentifier h r = trim (joinWith [32] (map (columnText h r) ak))"
    unfolding g parts anyk by simp
  have none: "\<not> (\<exists>k \<in> set keys. isSurnameKey k \<or> isNameKey k)"
    if "\<not> (\<exists>k \<in> set keys. isAnyNameKey k)"
    using that anyName_of_name by blast
  have c: "\<not> (\<exists>k \<in> set keys. isAnyNameKey k) \<longrightarrow>
      (\<forall>k. find isIdKey keys = Some k \<longrightarrow> getCandidateIdentifier h r = toStr h (map_of r k))"
  proof (intro impI allI)
    fix k
    assume n: "\<not> (\<exists>k \<in> set keys. isAnyNameKey k)" and f: "find isIdKey keys = Some k"
    have "k \<noteq> []" using f by (rule find_isIdKey_nonempty)
    then show "getCandidateIdentifier h r = toStr h (map_of r k)"
      unfolding g parts anyk using n none [OF n] f by simp
  qed
  have d: "\<not> (\<exists>k \<in> set keys. isAnyNameKey k) \<and> \<not> (\<exists>k \<in> set keys. isIdKey k) \<longrightarrow>
      getCandidateIdentifier h r =
        (case r of
           [] \<Rightarrow> unknownCandidate
         | (k, v) # _ \<Rightarrow> if v = Null then unknownCandidate else toStr h (Some v))"
  proof
    assume n: "\<not> (\<exists>k \<in> set keys. isAnyNameKey k) \<and> \<not> (\<exists>k \<in> set keys. isIdKey k)"
    then have "find isIdKey keys = None" by (simp add: find_None_iff)
    then show "getCandidateIdentifier h r =
        (case r of
           [] \<Rightarrow> unknownCandidate
         | (k, v) # _ \<Rightarrow> if v = Null then unknownCandidate else toStr h (Some v))"
      unfolding g parts anyk using n none by (simp add: firstValueOrUnknown_def)
  qed
  show ?thesis
    unfolding Let_def keys_def [symmetric] sk_def [symmetric] nk_def [symmetric]
      ak_def [symmetric]
    using a b c d by simp
qed

theorem identifier_resolution_witness:
  "(\<exists>k \<in> set (map fst [(asc ''DNI'', Str (asc ''123'')), (asc ''Nombre'', Str (asc ''Juan'')),
                            (asc ''Apellidos'', Str (asc ''Perez''))]). isSurnameKey k \<or> isNameKey k)
   \<and> getCandidateIdentifier (exampleHost 0)
        [(asc ''DNI'', Str (asc ''123'')), (asc ''Nombre'', Str (asc ''Juan'')),
         (asc ''Apellidos'', Str (asc ''Perez''))] = asc ''Perez Juan''
   \<and> \<not> (\<exists>k \<in> set (map fst [(asc ''Candidato'', Str (asc '' Ana ''))]). isSurnameKey k \<or> isNameKey k)
   \<and> (\<exists>k \<in> set (map fst [(asc ''Candidato'', Str (asc '' Ana ''))]). isAnyNameKey k)
   \<and> getCandidateIdentifier (exampleHost 0) [(asc ''Candidato'', Str (asc '' Ana ''))] = asc ''Ana''
   \<and> \<not> (\<exists>k \<in> set (map fst [(asc ''Edad'', Num 30), (asc ''NIF'', Str (asc ''9X''))]). isAnyNameKey k)
   \<and> find isIdKey (map fst [(asc ''Edad'', Num 30), (asc ''NIF'', Str (asc ''9X''))]) = Some (asc ''NIF'')
   \<and> getCandidateIdentifier (exampleHost 0) [(asc ''Edad'', Num 30), (asc ''NIF'', Str (asc ''9X''))]
       = asc ''9X''
   \<and> \<not> (\<exists>k \<in> set (map fst [(asc ''Edad'', Null)]). isAnyNameKey k)
   \<and> \<not> (\<exists>k \<in> set (map fst [(asc ''Edad'', Null)]). isIdKey k)
   \<and> getCandidateIdentifier (exampleHost 0) [(asc ''Edad'', Null)] = asc ''Candidato Desconocido''"
proof -
  define r1 where "r1 = [(asc ''DNI'', Str (asc ''123'')), (asc ''Nombre'', Str (asc ''Juan'')),
                         (asc ''Apellidos'', Str (asc ''Perez''))]"
  define r2 where "r2 = [(asc ''Candidato'', Str (asc '' Ana ''))]"
  define r3 where "r3 = [(asc ''Edad'', Num 30), (asc ''NIF'', Str (asc ''9X''))]"
  define r4 where "r4 = [(asc ''Edad'', Null)]"
  have a1: "\<exists>k \<in> set (map fst r1). isSurnameKey k \<or> isNameKey k"
    unfolding r1_def by code_simp
  have s1: "sort (filter isSurnameKey (map fst r1)) = [asc ''Apellidos'']"
    unfolding r1_def by code_simp
  have n1: "sort (filter (\<lambda>k. isNameKey k \<and> \<not> isSurnameKey k) (map fst r1)) = [asc ''Nombre'']"
    unfolding r1_def by code_simp
  have c1: "columnText (exampleHost 0) r1 (asc ''Apellidos'') = asc ''Perez''"
    "columnText (exampleHost 0) r1 (asc ''Nombre'') = asc ''Juan''"
    by (simp_all add: columnText_def toStrOrEmpty_def toStr_def r1_def asc_def)
  have t1: "trim (asc ''Perez'' @ 32 # asc ''Juan'') = asc ''Perez Juan''"
    by (simp add: trim_def asc_def isWhiteSpace_def)
  have g1: "getCandidateIdentifier (exampleHost 0) r1 = asc ''Perez Juan''"
    using identifier_resolution [of r1 "exampleHost 0"] a1 unfolding Let_def s1 n1
    by (simp add: c1 t1)
  have a2: "\<not> (\<exists>k \<in> set (map fst r2). isSurnameKey k \<or> isNameKey k)"
    unfolding r2_def by code_simp
  have b2: "\<exists>k \<in> set (map fst r2). isAnyNameKey k"
    unfolding r2_def by code_simp
  have s2: "sort (filter isAnyNameKey (map fst r2)) = [asc ''Candidato'']"
    unfolding r2_def by code_simp
  have c2: "columnText (exampleHost 0) r2 (asc ''Candidato'') = asc '' Ana ''"
    by (simp add: columnText_def toStrOrEmpty_def toStr_def r2_def asc_def)
  have t2: "trim (asc '' Ana '') = asc ''Ana''"
    by (simp add: trim_def asc_def isWhiteSpace_def)
  have g2: "getCandidateIdentifier (exampleHost 0) r2 = asc ''Ana''"
    using identifier_resolution [of r2 "exampleHost 0"] a2 b2 unfolding Let_def s2
    by (simp add: c2 t2)
  have a3: "\<not> (\<exists>k \<in> set (map fst r3). isAnyNameKey k)"
    unfolding r3_def by code_simp
  have f3: "find isIdKey (map fst r3) = Some (asc ''NIF'')"
    unfolding r3_def by code_simp
  have v3: "toStr (exampleHost 0) (map_of r3 (asc ''NIF'')) = asc ''9X''"
    by (simp add: toStr_def r3_def asc_def)
  have g3: "getCandidateIdentifier (exampleHost 0) r3 = asc ''9X''"
    using identifier_resolution [of r3 "exampleHost 0"] a3 f3 v3 unfolding Let_def by simp
  have a4: "\<not> (\<exists>k \<in> set (map fst r4). isAnyNameKey k)"
    unfolding r4_def by code_simp
  have b4: "\<not> (\<exists>k \<in> set (map fst r4). isIdKey k)"
    unfolding r4_def by code_simp
  have u: "unknownCandidate = asc ''Candidato Desconocido''" by (simp add: unknownCandidate_def)
  have g4: "getCandidateIdentifier (exampleHost 0) r4 = asc ''Candidato Desconocido''"
    using identifier_resolution [of r4 "exampleHost 0"] a4 b4 u unfolding Let_def
    by (simp add: r4_def)
  show ?thesis
    using a1 g1 a2 b2 g2 a3 f3 g3 a4 b4 g4 unfolding r1_def r2_def r3_def r4_def by simp
qed

lemma in_withIndices: "((r, i) \<in> set (withIndices dat)) = (i < length dat \<and> r = dat ! i)"
  by (auto simp: withIndices_def set_zip)

lemma searchable_set:
  "set (searchable h wi) = (\<lambda>(r, i). (normalizeText h (rowText h r), i)) ` set wi"
  by (auto simp: searchable_def rowText_def image_iff split: prod.splits)

lemma filterData_eq:
  "filterData h (withIndices dat) (searchable h (withIndices dat)) q
     = filter (\<lambda>(r, i). rowMatches h q r) (withIndices dat)"
proof (cases "searchTerms h q = []")
  case True
  then show ?thesis by (simp add: filterData_def rowMatches_def)
next
  case False
  define idx where "idx = map snd (filter (\<lambda>(s, i). list_all (\<lambda>t. isInfix t s) (searchTerms h q))
                                      (searchable h (withIndices dat)))"
  have fd: "filterData h (withIndices dat) (searchable h (withIndices dat)) q
      = filter (\<lambda>(r, i). i \<in> set idx) (withIndices dat)"
    using False by (simp add: filterData_def Let_def idx_def)
  have "(i \<in> set idx) = rowMatches h q r" if m: "(r, i) \<in> set (withIndices dat)" for r i
  proof
    assume "i \<in> set idx"
    then obtain s where s: "(s, i) \<in> set (searchable h (withIndices dat))"
      and ok: "list_all (\<lambda>t. isInfix t s) (searchTerms h q)"
      unfolding idx_def by auto
    then obtain r' where r': "(r', i) \<in> set (withIndices dat)"
      and st: "s = normalizeText h (rowText h r')"
      unfolding searchable_set by auto
    have "r' = r" using r' m by (simp add: in_withIndices)
    then show "rowMatches h q r" using ok st by (simp add: rowMatches_def list_all_iff)
  next
    assume "rowMatches h q r"
    then have "list_all (\<lambda>t. isInfix t (normalizeText h (rowText h r))) (searchTerms h q)"
      by (simp add: rowMatches_def list_all_iff)
    moreover have "(normalizeText h (rowText h r), i) \<in> set (searchable h (withIndices dat))"
      unfolding searchable_set using m by force
    ultimately show "i \<in> set idx" unfolding idx_def by force
  qed
  then have "filter (\<lambda>(r, i). i \<in> set idx) (withIndices dat)
      = filter (\<lambda>(r, i). rowMatches h q r) (withIndices dat)"
    by (intro filter_cong) auto
  then show ?thesis using fd by simp
qed

lemma search_eq: "search h dat q = filter (\<lambda>(r, i). rowMatches h q r) (withIndices dat)"
  unfolding search_def by (rule filterData_eq)

lemmas normalize_example_simps =
  normalizeText_def exampleHost_def nfdLatin1_def lowerLatin1_def isPunct_def isCombining_def
  asc_def

lemma text_mariaGarcia:
  "normalizeText (exampleHost 0) (rowText (exampleHost 0) mariaGarcia) = asc ''maria garcia''"
  by (simp add: rowText_def mariaGarcia_def toStrOrEmpty_def toStr_def normalize_example_simps)

lemma text_mariaLopez:
  "normalizeText (exampleHost 0) (rowText (exampleHost 0) mariaLopez) = asc ''maria lopez''"
  by (simp add: rowText_def mariaLopez_def toStrOrEmpty_def toStr_def normalize_example_simps)

lemma terms_maria_garcia:
  "searchTerms (exampleHost 0) (asc ''maria garcia'') = [asc ''maria'', asc ''garcia'']"
  by (simp add: searchTerms_def trim_def isWhiteSpace_def normalize_example_simps)

lemma terms_garcia_maria:
  "searchTerms (exampleHost 0) (asc ''garcia maria'') = [asc ''garcia'', asc ''maria'']"
  by (simp add: searchTerms_def trim_def isWhiteSpace_def normalize_example_simps)

lemma terms_space: "searchTerms (exampleHost 0) (asc '' '') = []"
  by (simp add: searchTerms_def trim_def isWhiteSpace_def normalize_example_simps)

lemma terms_tabQuery: "searchTerms (exampleHost 0) tabQuery = [tabQuery]"
  by (simp add: tabQuery_def searchTerms_def trim_def isWhiteSpace_def normalize_example_simps)

lemma normalize_tabQuery: "normalizeText (exampleHost 0) tabQuery = tabQuery"
  by (simp add: tabQuery_def normalize_example_simps)

lemma white_tabQuery: "whiteSpaceTerms tabQuery = [asc ''maria'', asc ''garcia'']"
  by (simp add: tabQuery_def whiteSpaceTerms_def isWhiteSpace_def asc_def)

lemma infix_examples:
  "isInfix (asc ''maria'') (asc ''maria garcia'')"
  "isInfix (asc ''garcia'') (asc ''maria garcia'')"
  "isInfix (asc ''maria'') (asc ''maria lopez'')"
  "\<not> isInfix (asc ''garcia'') (asc ''maria lopez'')"
  "\<not> isInfix tabQuery (asc ''maria garcia'')"
  unfolding tabQuery_def by code_simp+

section \<open>Searching\<close>

text \<open>
  Claim C6 says that the terms of a query are its parts separated by white space. The
  code splits at the space character only. The query \<open>maria\<close>, tab, \<open>garcia\<close> has the two
  terms \<open>maria\<close> and \<open>garcia\<close> when split at white space, and the row of Maria Garcia
  contains both; the search takes the query for one term and finds no row.
\<close>

theorem search_tab_counterexample:
  "whiteSpaceTerms (normalizeText (exampleHost 0) tabQuery) = [asc ''maria'', asc ''garcia'']
   \<and> isInfix (asc ''maria'') (normalizeText (exampleHost 0) (rowText (exampleHost 0) mariaGarcia))
   \<and> isInfix (asc ''garcia'') (normalizeText (exampleHost 0) (rowText (exampleHost 0) mariaGarcia))
   \<and> search (exampleHost 0) [mariaGarcia] tabQuery = []"
proof -
  have "\<not> rowMatches (exampleHost 0) tabQuery mariaGarcia"
    by (simp add: rowMatches_def terms_tabQuery text_mariaGarcia infix_examples)
  then have "search (exampleHost 0) [mariaGarcia] tabQuery = []"
    by (simp add: search_eq withIndices_def)
  then show ?thesis
    by (simp add: normalize_tabQuery white_tabQuery text_mariaGarcia infix_examples)
qed

text \<open>
  Claim C6, as the code has it. The terms of a query are the parts of its normalized text
  between space characters that are not blank. The search keeps, in their order and with
  their indices, exactly the rows whose normalized text (the values joined by spaces)
  contains every term; with no term it keeps every row; and two queries with the same
  terms in any order keep the same rows. Normalization decomposes, drops the combining
  marks, lower-cases and drops the punctuation: \<open>maria garcia\<close> finds the row
  of the accented Maria Garcia and not the row of Maria Lopez.
\<close>

theorem search_semantics:
  "search h dat q = filter (\<lambda>(r, i). rowMatches h q r) (withIndices dat)
   \<and> (((r, i) \<in> set (search h dat q)) = (i < length dat \<and> r = dat ! i \<and> rowMatches h q r))
   \<and> searchTerms h q = filter (\<lambda>t. trim t \<noteq> []) (splitOn 32 (normalizeText h q))
   \<and> (searchTerms h q = [] \<longrightarrow> search h dat q = withIndices dat)
   \<and> (set (searchTerms h q) = set (searchTerms h q2) \<longrightarrow> search h dat q = search h dat q2)"
proof -
  have a: "search h dat q = filter (\<lambda>(r, i). rowMatches h q r) (withIndices dat)"
    by (rule search_eq)
  have b: "((r, i) \<in> set (search h dat q)) = (i < length dat \<and> r = dat ! i \<and> rowMatches h q r)"
    unfolding a by (auto simp: in_withIndices)
  have c: "searchTerms h q = [] \<longrightarrow> search h dat q = withIndices dat"
    unfolding a by (simp add: rowMatches_def)
  have d: "set (searchTerms h q) = set (searchTerms h q2) \<longrightarrow> search h dat q = search h dat q2"
    unfolding search_eq by (simp add: rowMatches_def)
  show ?thesis using a b c d by (simp add: searchTerms_def)
qed

theorem search_semantics_witness:
  "search (exampleHost 0) [mariaGarcia, mariaLopez] (asc ''maria garcia'') = [(mariaGarcia, 0)]
   \<and> rowMatches (exampleHost 0) (asc ''maria garcia'') mariaGarcia
   \<and> \<not> rowMatches (exampleHost 0) (asc ''maria garcia'') mariaLopez
   \<and> searchTerms (exampleHost 0) (asc '' '') = []
   \<and> search (exampleHost 0) [mariaGarcia, mariaLopez] (asc '' '')
       = withIndices [mariaGarcia, mariaLopez]
   \<and> set (searchTerms (exampleHost 0) (asc ''maria garcia''))
       = set (searchTerms (exampleHost 0) (asc ''garcia maria''))
   \<and> search (exampleHost 0) [mariaGarcia, mariaLopez] (asc ''garcia maria'') = [(mariaGarcia, 0)]"
proof -
  have m1: "rowMatches (exampleHost 0) (asc ''maria garcia'') mariaGarcia"
    by (simp add: rowMatches_def terms_maria_garcia text_mariaGarcia infix_examples)
  have m2: "\<not> rowMatches (exampleHost 0) (asc ''maria garcia'') mariaLopez"
    by (simp add: rowMatches_def terms_maria_garcia text_mariaLopez infix_examples)
  have wi: "withIndices [mariaGarcia, mariaLopez] = [(mariaGarcia, 0), (mariaLopez, 1)]"
    by (simp add: withIndices_def upt_rec)
  note t = search_semantics [of "exampleHost 0" "[mariaGarcia, mariaLopez]" "asc ''maria garcia''"
      mariaGarcia 0 "asc ''garcia maria''"]
  have s1: "search (exampleHost 0) [mariaGarcia, mariaLopez] (asc ''maria garcia'')
      = [(mariaGarcia, 0)]"
    using t [THEN conjunct1] m1 m2 by (simp add: wi)
  have e: "set (searchTerms (exampleHost 0) (asc ''maria garcia''))
       = set (searchTerms (exampleHost 0) (asc ''garcia maria''))"
    by (auto simp: terms_maria_garcia terms_garcia_maria)
  have s2: "search (exampleHost 0) [mariaGarcia, mariaLopez] (asc ''garcia maria'')
      = [(mariaGarcia, 0)]"
    using t [THEN conjunct2, THEN conjunct2, THEN conjunct2, THEN conjunct2, rule_format, OF e]
      s1 by simp
  have s3: "search (exampleHost 0) [mariaGarcia, mariaLopez] (asc '' '')
       = withIndices [mariaGarcia, mariaLopez]"
    using search_semantics [of "exampleHost 0" "[mariaGarcia, mariaLopez]" "asc '' ''"
        mariaGarcia 0 "asc '' ''", THEN conjunct2, THEN conjunct2, THEN conjunct2, THEN conjunct1,
        rule_format, OF terms_space] by simp
  show ?thesis using s1 m1 m2 terms_space s3 e s2 by simp
qed

end
